theory Spec2Isabelle
  imports Complex_Main
begin

text \<open>
  A model of the parts of map.js that answer a map click with a seven-slot hazard report
  (the lookups and their tiers, the distance helper, the barrier \<^verbatim>\<open>checkDone\<close>) and
  that keep the EV charger overlay up to date (\<^verbatim>\<open>debounce\<close>, \<^verbatim>\<open>fetchInView\<close>, the
  busy flag). The definitions follow the version of the file marked 2026-02-28.a. The earlier
  copy of map.js in the repository has the same \<^verbatim>\<open>checkDone\<close>, the same
  \<^verbatim>\<open>getDistanceToPolygonEdge\<close>, the same selection loops in the two nearest searches, the
  same \<^verbatim>\<open>identifyMMIAt\<close> and the same busy flag; it words the report differently, has
  no \<^verbatim>\<open>try\<close> in the query callbacks, and fetches chargers on every move.

  Functions keep their names. What a function does to the outside is made a value: the
  queries a lookup sends are returned as a list, the page is a log of what was done to it,
  an exception is a \<open>TypeError\<close> result, a callback that is never called is \<open>None\<close>.
  Rendering (markers, popups, styles) is left out.
\<close>

section \<open>JavaScript values used by map.js\<close>

text \<open>
  Numbers. A finite double is taken as the real number it denotes; the three special
  values are kept apart, because the code tests for them (\<^verbatim>\<open>isNaN\<close>,
  \<^verbatim>\<open>Number.isFinite\<close>, the initial \<^verbatim>\<open>minDist = Infinity\<close>).
\<close>

datatype jsnum = NaN | Fin real | PosInf | NegInf

fun isNaN :: "jsnum \<Rightarrow> bool" where
  "isNaN NaN = True"
| "isNaN _ = False"

fun isFinite :: "jsnum \<Rightarrow> bool" where
  "isFinite (Fin _) = True"
| "isFinite _ = False"

text \<open>The relational operator \<^verbatim>\<open>a < b\<close> on numbers: false as soon as one side is NaN.\<close>

fun js_lt :: "jsnum \<Rightarrow> jsnum \<Rightarrow> bool" where
  "js_lt (Fin a) (Fin b) = (a < b)"
| "js_lt (Fin _) PosInf = True"
| "js_lt NegInf (Fin _) = True"
| "js_lt NegInf PosInf = True"
| "js_lt _ _ = False"

text \<open>
  The scalar values a provider response carries in a property, and the values the
  helpers of map.js pass around: \<^verbatim>\<open>undefined\<close>, \<^verbatim>\<open>null\<close>, a number, a string.
\<close>

datatype jsval = JUndefined | JNull | JNum jsnum | JStr string

subsection \<open>Decimal text of numbers\<close>

definition digit_char :: "nat \<Rightarrow> char" where
  "digit_char d = ''0123456789'' ! d"

fun digits :: "nat \<Rightarrow> string" where
  "digits n = (if n < 10 then [digit_char n] else digits (n div 10) @ [digit_char (n mod 10)])"

declare digits.simps [simp del]

text \<open>
  \<^verbatim>\<open>Number.prototype.toFixed(f)\<close> on a finite value: the integer \<open>n\<close> nearest to
  \<open>x * 10^f\<close> (the larger one on a tie), written with at least \<open>f + 1\<close> digits and a point
  before the last \<open>f\<close>; a minus sign when \<open>x < 0\<close>. (From \<open>10^21\<close> on, JavaScript switches to
  exponent notation; distances in miles, coordinates and intensities stay far below, and the
  model writes the digits there too.)
\<close>

definition toFixed :: "nat \<Rightarrow> real \<Rightarrow> string" where
  "toFixed f x =
     (let n = nat \<lfloor>\<bar>x\<bar> * 10 ^ f + 1 / 2\<rfloor>;
          m = digits n;
          mz = (if length m \<le> f then replicate (f + 1 - length m) CHR ''0'' @ m else m);
          body = (if f = 0 then m
                  else take (length mz - f) mz @ ''.'' @ drop (length mz - f) mz)
      in (if x < 0 then ''-'' else '''') @ body)"

fun num_toFixed :: "nat \<Rightarrow> jsnum \<Rightarrow> string" where
  "num_toFixed f (Fin x) = toFixed f x"
| "num_toFixed f NaN = ''NaN''"
| "num_toFixed f PosInf = ''Infinity''"
| "num_toFixed f NegInf = ''-Infinity''"

text \<open>
  The text of an integer-valued number in a template literal (below \<open>10^21\<close>, as for
  \<^verbatim>\<open>toFixed\<close>).
\<close>

definition int_text :: "int \<Rightarrow> string" where
  "int_text i = (if i < 0 then ''-'' else '''') @ digits (nat \<bar>i\<bar>)"

subsection \<open>parseFloat\<close>

definition is_digit :: "char \<Rightarrow> bool" where
  "is_digit c = (c \<in> set ''0123456789'')"

definition is_space :: "char \<Rightarrow> bool" where
  "is_space c = (c \<in> {CHR '' '', CHR 0x09, CHR 0x0A, CHR 0x0B, CHR 0x0C, CHR 0x0D})"

definition digit_val :: "char \<Rightarrow> nat" where
  "digit_val c = of_char c - 48"

fun nat_of_digits :: "nat \<Rightarrow> string \<Rightarrow> nat" where
  "nat_of_digits acc [] = acc"
| "nat_of_digits acc (c # cs) = nat_of_digits (acc * 10 + digit_val c) cs"

text \<open>The exponent part \<^verbatim>\<open>e[+-]ddd\<close> of a decimal literal, when there is one.\<close>

definition exponent_part :: "string \<Rightarrow> real" where
  "exponent_part r =
     (case r of
        c # r1 \<Rightarrow>
          if c = CHR ''e'' \<or> c = CHR ''E'' then
            (case r1 of
               s # r2 \<Rightarrow>
                 if s = CHR ''-'' \<and> takeWhile is_digit r2 \<noteq> []
                   then 1 / 10 ^ nat_of_digits 0 (takeWhile is_digit r2)
                 else if s = CHR ''+'' \<and> takeWhile is_digit r2 \<noteq> []
                   then 10 ^ nat_of_digits 0 (takeWhile is_digit r2)
                 else if takeWhile is_digit r1 \<noteq> []
                   then 10 ^ nat_of_digits 0 (takeWhile is_digit r1)
                 else 1
             | [] \<Rightarrow> 1)
          else 1
      | [] \<Rightarrow> 1)"

text \<open>
  The unsigned part: \<^verbatim>\<open>Infinity\<close>, or digits with an optional fraction and exponent;
  anything else is NaN. The value of a decimal is taken exactly.
\<close>

definition unsigned_decimal :: "string \<Rightarrow> jsnum" where
  "unsigned_decimal s =
     (if take 8 s = ''Infinity'' then PosInf
      else
        (let ip = takeWhile is_digit s;
             r = dropWhile is_digit s;
             fp = (case r of c # r1 \<Rightarrow> if c = CHR ''.'' then takeWhile is_digit r1 else [] | [] \<Rightarrow> []);
             r2 = (case r of c # r1 \<Rightarrow> if c = CHR ''.'' then dropWhile is_digit r1 else r | [] \<Rightarrow> [])
         in if ip = [] \<and> fp = [] then NaN
            else Fin ((real (nat_of_digits 0 ip) + real (nat_of_digits 0 fp) / 10 ^ length fp)
                       * exponent_part r2)))"

fun js_neg :: "jsnum \<Rightarrow> jsnum" where
  "js_neg NaN = NaN"
| "js_neg (Fin x) = Fin (- x)"
| "js_neg PosInf = NegInf"
| "js_neg NegInf = PosInf"

definition parseFloat_str :: "string \<Rightarrow> jsnum" where
  "parseFloat_str s =
     (case dropWhile is_space s of
        [] \<Rightarrow> NaN
      | c # r \<Rightarrow>
          if c = CHR ''-'' then js_neg (unsigned_decimal r)
          else if c = CHR ''+'' then unsigned_decimal r
          else unsigned_decimal (c # r))"

text \<open>
  \<^verbatim>\<open>parseFloat(v)\<close> first turns \<open>v\<close> into a string. A number comes back as itself
  (its text parses to it), \<^verbatim>\<open>undefined\<close> and \<^verbatim>\<open>null\<close> give NaN.
\<close>

fun parseFloat :: "jsval \<Rightarrow> jsnum" where
  "parseFloat (JStr s) = parseFloat_str s"
| "parseFloat (JNum n) = n"
| "parseFloat JUndefined = NaN"
| "parseFloat JNull = NaN"

subsection \<open>Number on a string\<close>

text \<open>
  \<^verbatim>\<open>Number(s)\<close> for a string: white space is trimmed at both ends (here the white
  space of the ASCII range), the empty string is 0, and what is left has to be a numeric
  literal as a whole: a signed decimal literal or \<^verbatim>\<open>Infinity\<close>, or an unsigned binary,
  octal or hexadecimal integer literal; anything else, such as \<^verbatim>\<open>12abc\<close>, is NaN. The
  value of a decimal literal is taken exactly; JavaScript rounds it to the nearest double,
  which is the same number when the literal denotes a double, as \<^verbatim>\<open>6.5\<close> does.
\<close>

definition trim :: "string \<Rightarrow> string" where
  "trim s = rev (dropWhile is_space (rev (dropWhile is_space s)))"

definition exponent_literal :: "string \<Rightarrow> real option" where
  "exponent_literal r =
     (case r of
        [] \<Rightarrow> Some 1
      | c # r1 \<Rightarrow>
          if c = CHR ''e'' \<or> c = CHR ''E'' then
            (case r1 of
               [] \<Rightarrow> None
             | s # r2 \<Rightarrow>
                 if s = CHR ''-''
                   then (if r2 \<noteq> [] \<and> list_all is_digit r2
                         then Some (1 / 10 ^ nat_of_digits 0 r2) else None)
                 else if s = CHR ''+''
                   then (if r2 \<noteq> [] \<and> list_all is_digit r2
                         then Some (10 ^ nat_of_digits 0 r2) else None)
                 else if list_all is_digit r1 then Some (10 ^ nat_of_digits 0 r1)
                 else None)
          else None)"

definition unsigned_literal :: "string \<Rightarrow> jsnum" where
  "unsigned_literal s =
     (if s = ''Infinity'' then PosInf
      else
        (let ip = takeWhile is_digit s;
             r = dropWhile is_digit s;
             fp = (case r of c # r1 \<Rightarrow> if c = CHR ''.'' then takeWhile is_digit r1 else [] | [] \<Rightarrow> []);
             r2 = (case r of c # r1 \<Rightarrow> if c = CHR ''.'' then dropWhile is_digit r1 else r | [] \<Rightarrow> [])
         in if ip = [] \<and> fp = [] then NaN
            else (case exponent_literal r2 of
                    None \<Rightarrow> NaN
                  | Some k \<Rightarrow>
                      Fin ((real (nat_of_digits 0 ip) + real (nat_of_digits 0 fp) / 10 ^ length fp) * k))))"

definition digit_in :: "nat \<Rightarrow> char \<Rightarrow> nat option" where
  "digit_in b c =
     (let v = (if is_digit c then Some (digit_val c)
               else if c \<in> set ''abcdef'' then Some (of_char c - 87)
               else if c \<in> set ''ABCDEF'' then Some (of_char c - 55)
               else None)
      in case v of Some d \<Rightarrow> if d < b then Some d else None | None \<Rightarrow> None)"

fun radix_value :: "nat \<Rightarrow> nat \<Rightarrow> string \<Rightarrow> nat option" where
  "radix_value b acc [] = Some acc"
| "radix_value b acc (c # cs) =
     (case digit_in b c of None \<Rightarrow> None | Some d \<Rightarrow> radix_value b (acc * b + d) cs)"

text \<open>A literal with a radix prefix: \<open>None\<close> when the string has no such prefix.\<close>

definition radix_literal :: "string \<Rightarrow> jsnum option" where
  "radix_literal t =
     (case t of
        z # x # ds \<Rightarrow>
          if z = CHR ''0'' \<and> x \<in> set ''xXoObB'' then
            Some (if ds = [] then NaN
                  else (case radix_value (if x \<in> set ''xX'' then 16 else if x \<in> set ''oO'' then 8 else 2) 0 ds of
                          Some n \<Rightarrow> Fin (real n)
                        | None \<Rightarrow> NaN))
          else None
      | _ \<Rightarrow> None)"

definition StringToNumber :: "string \<Rightarrow> jsnum" where
  "StringToNumber s =
     (case trim s of
        [] \<Rightarrow> Fin 0
      | c # r \<Rightarrow>
          if c = CHR ''-'' then js_neg (unsigned_literal r)
          else if c = CHR ''+'' then unsigned_literal r
          else (case radix_literal (c # r) of
                  Some n \<Rightarrow> n
                | None \<Rightarrow> unsigned_literal (c # r)))"

section \<open>Features, provider queries and the turf helpers\<close>

text \<open>A GeoJSON coordinate value: a position, or an array of coordinate values.\<close>

datatype coords = Position "real list" | Coords "coords list"

record geometry =
  gtype :: string
  coordinates :: coords

record feature =
  geometry :: geometry
  properties :: "(string \<times> jsval) list"

record latlng =
  lat :: real
  lng :: real

text \<open>\<^verbatim>\<open>feature.properties[name]\<close>: a missing key reads as \<^verbatim>\<open>undefined\<close>.\<close>

definition property :: "feature \<Rightarrow> string \<Rightarrow> jsval" where
  "property f name = (case map_of (properties f) name of None \<Rightarrow> JUndefined | Some v \<Rightarrow> v)"

text \<open>
  The libraries map.js calls and that are not part of the repository are parameters of the
  model: the three turf functions of the distance helper, and the two conversions of the
  language between non-integer numbers and text. Each is taken to return a value on every
  argument: a turf call that throws is outside the model.
\<close>

record lib =
  turf_polygonToLine :: "geometry \<Rightarrow> coords"
  turf_nearestPointOnLine :: "coords \<Rightarrow> real \<times> real \<Rightarrow> real \<times> real"
  turf_distance :: "real \<times> real \<Rightarrow> real \<times> real \<Rightarrow> string \<Rightarrow> jsnum"
  number_toString :: "real \<Rightarrow> string"
  string_toNumber :: "string \<Rightarrow> jsnum"

text \<open>A value inside a template literal \<^verbatim>\<open>${v}\<close>.\<close>

fun template :: "lib \<Rightarrow> jsval \<Rightarrow> string" where
  "template L (JStr s) = s"
| "template L JUndefined = ''undefined''"
| "template L JNull = ''null''"
| "template L (JNum NaN) = ''NaN''"
| "template L (JNum PosInf) = ''Infinity''"
| "template L (JNum NegInf) = ''-Infinity''"
| "template L (JNum (Fin x)) =
     (if of_int \<lfloor>x\<rfloor> = x then int_text \<lfloor>x\<rfloor> else number_toString L x)"

text \<open>
  The callback of an esri-leaflet query, \<^verbatim>\<open>run((err, fc) => ...)\<close>: an error or none, a
  feature collection (its \<^verbatim>\<open>features\<close> array) or none.
\<close>

record qresp =
  err :: "string option"
  fc :: "feature list option"

datatype layer = FireHazardLRA | FireHazardSRA | FloodLayer | OzoneLayer | PmLayer | DrinkLayer

datatype query = Contains layer latlng | Nearby layer latlng nat

text \<open>A provider answers every query; the model records which queries were issued.\<close>

type_synonym provider = "query \<Rightarrow> qresp"

definition NEARBY_METERS :: nat where
  "NEARBY_METERS = 80467"

text \<open>
  \<^verbatim>\<open>queryContains\<close> and \<^verbatim>\<open>queryNearby\<close> of the click handler: the promise resolves
  with the pair \<^verbatim>\<open>{ err, fc }\<close> of the callback; the query issued is returned with it.
\<close>

definition queryContains :: "provider \<Rightarrow> layer \<Rightarrow> latlng \<Rightarrow> query \<times> qresp" where
  "queryContains P layer latlng = (let q = Contains layer latlng in (q, P q))"

definition queryNearby :: "provider \<Rightarrow> layer \<Rightarrow> latlng \<Rightarrow> nat \<Rightarrow> query \<times> qresp" where
  "queryNearby P layer latlng meters = (let q = Nearby layer latlng meters in (q, P q))"

subsection \<open>Non-ASCII characters of the report, as their UTF-8 bytes\<close>

definition square_mark :: string where
  "square_mark = [CHR 0xE2, CHR 0x96, CHR 0xA0]"

definition cross_mark :: string where
  "cross_mark = [CHR 0xE2, CHR 0x9D, CHR 0x8C]"

definition ruler_mark :: string where
  "ruler_mark = [CHR 0xF0, CHR 0x9F, CHR 0x93, CHR 0x8F]"

definition en_dash :: string where
  "en_dash = [CHR 0xE2, CHR 0x80, CHR 0x93]"

definition micro_sign :: string where
  "micro_sign = [CHR 0xC2, CHR 0xB5]"

definition superscript_three :: string where
  "superscript_three = [CHR 0xC2, CHR 0xB3]"

definition newline :: string where
  "newline = [CHR 0x0A]"

definition dquote :: string where
  "dquote = [CHR 0x22]"

subsection \<open>Section 7 of map.js: distance helpers\<close>

text \<open>
  \<^verbatim>\<open>getDistanceToPolygonEdge(clickLatLng, feature)\<close>. For a Polygon or a MultiPolygon the
  function returns \<^verbatim>\<open>distance.toFixed(2)\<close>, which is a string; for any other geometry
  type it returns the number NaN.
\<close>

definition getDistanceToPolygonEdge :: "lib \<Rightarrow> latlng \<Rightarrow> feature \<Rightarrow> jsval" where
  "getDistanceToPolygonEdge L clickLatLng feature =
     (let point = (lng clickLatLng, lat clickLatLng);
          geom = geometry feature;
          finish = (\<lambda>line.
            let nearestPoint = turf_nearestPointOnLine L line point;
                distance = turf_distance L point nearestPoint ''miles''
            in JStr (num_toFixed 2 distance))
      in if gtype geom = ''Polygon''
           then finish (turf_polygonToLine L \<lparr>gtype = ''Polygon'', coordinates = coordinates geom\<rparr>)
         else if gtype geom = ''MultiPolygon''
           then finish (turf_polygonToLine L \<lparr>gtype = ''MultiPolygon'', coordinates = coordinates geom\<rparr>)
         else JNum NaN)"

text \<open>What both nearest searches compare: \<^verbatim>\<open>parseFloat(getDistanceToPolygonEdge(...))\<close>.\<close>

definition edge_dist :: "lib \<Rightarrow> latlng \<Rightarrow> feature \<Rightarrow> jsnum" where
  "edge_dist L clickLatLng feature = parseFloat (getDistanceToPolygonEdge L clickLatLng feature)"

definition nearest_text :: "lib \<Rightarrow> string \<Rightarrow> jsval \<Rightarrow> jsnum \<Rightarrow> string" where
  "nearest_text L label v dst =
     square_mark @ '' <strong>Nearest '' @ label @ '':</strong> '' @ template L v
       @ ''<br>'' @ ruler_mark @ '' Distance: '' @ num_toFixed 2 dst @ '' mi''"

definition no_nearby_text :: "string \<Rightarrow> string" where
  "no_nearby_text label = cross_mark @ '' <strong>'' @ label @ '':</strong> No nearby zones found''"

text \<open>
  The body of the \<^verbatim>\<open>forEach\<close> of \<^verbatim>\<open>getClosestFeatureByEdgeDistance\<close>, on the pair
  \<open>(minDist, bestFeature)\<close>; the distance function is \<^const>\<open>edge_dist\<close> at the click.
\<close>

definition closest_step :: "(feature \<Rightarrow> jsnum) \<Rightarrow> jsnum \<times> feature option \<Rightarrow> feature
    \<Rightarrow> jsnum \<times> feature option" where
  "closest_step d acc feature =
     (let dst = d feature
      in if \<not> isNaN dst \<and> js_lt dst (fst acc) then (dst, Some feature) else acc)"

definition closest_loop :: "(feature \<Rightarrow> jsnum) \<Rightarrow> feature list \<Rightarrow> jsnum \<times> feature option" where
  "closest_loop d features = foldl (closest_step d) (PosInf, None) features"

text \<open>
  \<^verbatim>\<open>getClosestFeatureByEdgeDistance(layer, clickLatLng, label, fieldName, _unused, callback)\<close>.
  The result is the query issued and the text handed to \<^verbatim>\<open>callback\<close>. The handler of
  the query has no \<^verbatim>\<open>try\<close>: when the provider reports no error and passes no collection,
  \<^verbatim>\<open>fc.features\<close> throws and the callback is never called (\<open>None\<close>).
\<close>

definition getClosestFeatureByEdgeDistance ::
    "lib \<Rightarrow> provider \<Rightarrow> layer \<Rightarrow> latlng \<Rightarrow> string \<Rightarrow> string \<Rightarrow> query list \<times> string option" where
  "getClosestFeatureByEdgeDistance L P layer clickLatLng label fieldName =
     (let q = Nearby layer clickLatLng NEARBY_METERS;
          r = P q
      in ([q],
          (if err r = None then
             (case fc r of
                None \<Rightarrow> None
              | Some features \<Rightarrow>
                  if length features > 0 then
                    (case closest_loop (edge_dist L clickLatLng) features of
                       (minDist, Some bestFeature) \<Rightarrow>
                         Some (nearest_text L label (property bestFeature fieldName) minDist)
                     | (minDist, None) \<Rightarrow> Some (no_nearby_text label))
                  else Some (no_nearby_text label))
           else Some (no_nearby_text label))))"

text \<open>
  \<^verbatim>\<open>nearestByEdgeDistanceAcross(layersArr, latlng, label, fieldName)\<close>: \<open>best\<close> is
  \<^verbatim>\<open>null\<close> or the pair of a distance and the text built for it.
\<close>

definition across_step :: "lib \<Rightarrow> latlng \<Rightarrow> string \<Rightarrow> string \<Rightarrow> (jsnum \<times> string) option
    \<Rightarrow> feature \<Rightarrow> (jsnum \<times> string) option" where
  "across_step L latlng label fieldName best f =
     (let dst = edge_dist L latlng f
      in if \<not> isFinite dst then best
         else if best = None \<or> js_lt dst (fst (the best))
           then Some (dst, nearest_text L label (property f fieldName) dst)
         else best)"

fun across_layers :: "lib \<Rightarrow> provider \<Rightarrow> latlng \<Rightarrow> string \<Rightarrow> string \<Rightarrow> layer list
    \<Rightarrow> query list \<times> (jsnum \<times> string) option \<Rightarrow> query list \<times> (jsnum \<times> string) option" where
  "across_layers L P latlng label fieldName [] acc = acc"
| "across_layers L P latlng label fieldName (lyr # rest) (calls, best) =
     (let (q, r) = queryNearby P lyr latlng NEARBY_METERS
      in if err r \<noteq> None \<or> fc r = None \<or> the (fc r) = []
           then across_layers L P latlng label fieldName rest (calls @ [q], best)
         else across_layers L P latlng label fieldName rest
                (calls @ [q], foldl (across_step L latlng label fieldName) best (the (fc r))))"

definition nearestByEdgeDistanceAcross ::
    "lib \<Rightarrow> provider \<Rightarrow> layer list \<Rightarrow> latlng \<Rightarrow> string \<Rightarrow> string \<Rightarrow> query list \<times> string" where
  "nearestByEdgeDistanceAcross L P layersArr latlng label fieldName =
     (case across_layers L P latlng label fieldName layersArr ([], None) of
        (calls, Some b) \<Rightarrow> (calls, snd b)
      | (calls, None) \<Rightarrow> (calls, no_nearby_text label))"

section \<open>Section 5 of map.js: identify helpers for landslide and shaking\<close>

text \<open>A promise that has settled.\<close>

datatype 'a promise = Resolved 'a | Rejected string

text \<open>
  The callback of the landslide identify, \<^verbatim>\<open>run((error, featureCollection, rawResponse) => ...)\<close>.
  \<open>parsed_label\<close> stands for what \<^verbatim>\<open>parseLandslideLabelFromIdentify\<close> returns on the two
  response objects: a label, or \<^verbatim>\<open>null\<close>.
\<close>

record landslide_callback =
  identify_error :: "string option"
  parsed_label :: "string option"

definition identifyLandslideAt :: "landslide_callback \<Rightarrow> string option promise" where
  "identifyLandslideAt cb =
     (case identify_error cb of
        Some error \<Rightarrow> Rejected error
      | None \<Rightarrow> Resolved (parsed_label cb))"

definition MMI_CLASSES :: "(int \<times> string \<times> string) list" where
  "MMI_CLASSES =
     [(1, ''I'', ''Not felt''), (2, ''II'', ''Weak''), (3, ''III'', ''Weak''),
      (4, ''IV'', ''Light''), (5, ''V'', ''Moderate''), (6, ''VI'', ''Strong''),
      (7, ''VII'', ''Very Strong''), (8, ''VIII'', ''Severe''), (9, ''IX'', ''Violent''),
      (10, ''X+'', ''Extreme'')]"

record mmi_format =
  fmt_label :: string
  fmt_intClass :: int
  fmt_valueStr :: string

definition formatMMI :: "real \<Rightarrow> mmi_format" where
  "formatMMI mmi =
     (let intClass = max 1 (min 10 \<lfloor>mmi\<rfloor>);
          meta = (case map_of MMI_CLASSES intClass of
                    Some m \<Rightarrow> m
                  | None \<Rightarrow> (''?'', ''Unknown''))
      in \<lparr>fmt_label = fst meta @ '' '' @ en_dash @ '' '' @ snd meta,
          fmt_intClass = intClass,
          fmt_valueStr = toFixed 1 mmi\<rparr>)"

text \<open>
  The callback of the shaking identify, \<^verbatim>\<open>run((err, res, raw) => ...)\<close>. Of \<^verbatim>\<open>raw\<close>
  the code reads \<^verbatim>\<open>raw.pixel.value\<close> and \<^verbatim>\<open>raw.value\<close>, of \<^verbatim>\<open>res\<close> it reads
  \<^verbatim>\<open>res.value\<close>; a missing object is \<open>None\<close>, a missing field is \<^verbatim>\<open>undefined\<close>.
\<close>

record raw_identify =
  raw_pixel :: "jsval option"
  raw_value :: jsval

record mmi_callback =
  mmi_err :: "string option"
  mmi_res :: "jsval option"
  mmi_raw :: "raw_identify option"

text \<open>\<^verbatim>\<open>Number(v)\<close>.\<close>

fun Number :: "lib \<Rightarrow> jsval \<Rightarrow> jsnum" where
  "Number L JUndefined = NaN"
| "Number L JNull = Fin 0"
| "Number L (JNum n) = n"
| "Number L (JStr s) = string_toNumber L s"

definition mmi_val :: "lib \<Rightarrow> mmi_callback \<Rightarrow> jsnum option" where
  "mmi_val L cb =
     (let pixel_value = (case mmi_raw cb of
                           Some raw \<Rightarrow> (case raw_pixel raw of Some v \<Rightarrow> v | None \<Rightarrow> JUndefined)
                         | None \<Rightarrow> JUndefined);
          top_value = (case mmi_raw cb of Some raw \<Rightarrow> raw_value raw | None \<Rightarrow> JUndefined);
          res_value = (case mmi_res cb of Some v \<Rightarrow> v | None \<Rightarrow> JUndefined)
      in if pixel_value \<noteq> JUndefined then Some (Number L pixel_value)
         else if top_value \<noteq> JUndefined then Some (Number L top_value)
         else if res_value \<noteq> JUndefined then Some (Number L res_value)
         else None)"

text \<open>
  \<^verbatim>\<open>identifyMMIAt(latlng)\<close>: the executor only ever calls \<^verbatim>\<open>resolve\<close>, with the value or
  \<^verbatim>\<open>null\<close>.
\<close>

definition identifyMMIAt :: "lib \<Rightarrow> mmi_callback \<Rightarrow> real option promise" where
  "identifyMMIAt L cb =
     (case mmi_err cb of
        Some e \<Rightarrow> Resolved None
      | None \<Rightarrow>
          (case mmi_val L cb of
             Some (Fin x) \<Rightarrow> Resolved (Some x)
           | _ \<Rightarrow> Resolved None))"

section \<open>Section 10 of map.js: the click report\<close>

record results =
  fire :: string
  flood :: string
  ozone :: string
  pm :: string
  drink :: string
  landslide :: string
  shaking :: string

text \<open>What the handler does to the page: the spinner, and assignments to \<^verbatim>\<open>reportEl.innerHTML\<close>.\<close>

datatype dom_effect = ShowSpinner | HideSpinner | SetReport string

record click_state =
  results :: results
  completed :: nat
  reportEl :: bool
  page :: "dom_effect list"

definition default_results :: results where
  "default_results =
     \<lparr>fire = cross_mark @ '' Fire Hazard Zone: No data.'',
      flood = cross_mark @ '' Flood Hazard Zone: No data.'',
      ozone = cross_mark @ '' Ozone: No data.'',
      pm = cross_mark @ '' PM2.5: No data.'',
      drink = cross_mark @ '' Drinking Water: No data.'',
      landslide = cross_mark @ '' Landslide Susceptibility: No data.'',
      shaking = cross_mark @ '' Shaking Potential: No data.''\<rparr>"

text \<open>\<^verbatim>\<open>Array.prototype.join\<close>.\<close>

fun join :: "string \<Rightarrow> string list \<Rightarrow> string" where
  "join sep [] = []"
| "join sep [x] = x"
| "join sep (x # y # ys) = x @ sep @ join sep (y # ys)"

text \<open>
  The start of the click handler: spinner on, the loading line when the page has the report
  element, the seven defaults, \<^verbatim>\<open>completed = 0\<close>.
\<close>

definition click_start :: "bool \<Rightarrow> latlng \<Rightarrow> click_state" where
  "click_start hasReportEl e =
     \<lparr>results = default_results,
      completed = 0,
      reportEl = hasReportEl,
      page = ShowSpinner #
        (if hasReportEl
         then [SetReport (''<strong>Location:</strong><br>Lat: '' @ toFixed 5 (lat e) @ '', Lng: ''
                 @ toFixed 5 (lng e) @ ''<br><em>Loading hazard information...</em>'')]
         else [])\<rparr>"

definition totalTasks :: nat where
  "totalTasks = 7"

definition ordered :: "results \<Rightarrow> string list" where
  "ordered r = [fire r, flood r, ozone r, pm r, drink r, landslide r, shaking r]"

definition checkDone :: "click_state \<Rightarrow> click_state" where
  "checkDone st =
     (let st1 = st\<lparr>completed := completed st + 1\<rparr>
      in if completed st1 = totalTasks then
           (let st2 = (if reportEl st1
                       then st1\<lparr>page := page st1 @ [SetReport (join ''<br><br>'' (ordered (results st1)))]\<rparr>
                       else st1)
            in st2\<lparr>page := page st2 @ [HideSpinner]\<rparr>)
         else st1)"

subsection \<open>Report formatting helpers\<close>

definition fmtFireInside :: "lib \<Rightarrow> jsval \<Rightarrow> string \<Rightarrow> string" where
  "fmtFireInside L zone whichArea =
     square_mark @ '' <strong>Fire Hazard Zone ('' @ whichArea @ ''):</strong><br>'' @ newline
     @ ''This location is within a <strong>'' @ template L zone
     @ ''</strong> Fire Hazard Severity Zone.<br>'' @ newline
     @ ''These zones reflect expected fire behavior based on fuels, terrain, and typical fire weather, and are used to guide planning and mitigation.''"

definition fmtFloodInside :: "lib \<Rightarrow> jsval \<Rightarrow> string" where
  "fmtFloodInside L zone =
     square_mark @ '' <strong>Flood Hazard Zone:</strong><br>'' @ newline
     @ ''This location is within <strong>'' @ template L zone @ ''</strong> (FEMA NFHL).<br>'' @ newline
     @ ''Flood zones represent areas with varying flood probabilities and are used for floodplain management, insurance, and development decisions.''"

definition EXPLAIN :: "(string \<times> string) list" where
  "EXPLAIN =
     [(''ozone'', ''Ground-level ozone is a lung irritant. This indicator summarizes warm-season ozone conditions (often tied to smog).''),
      (''pm'', ''PM2.5 is tiny airborne particulate pollution that can get deep into your lungs. Higher values generally mean worse air quality.''),
      (''drink'', ''Drinking water contaminants combines contaminant and violation info into a single score (higher is worse).'')]"

definition fmtCalEnviro :: "string \<Rightarrow> string \<Rightarrow> string \<Rightarrow> string \<Rightarrow> string \<Rightarrow> string" where
  "fmtCalEnviro indicatorKey title valueStr pctStr noteStr =
     (let explainText = (case map_of EXPLAIN indicatorKey of
                           Some t \<Rightarrow> t
                         | None \<Rightarrow> ''Environmental indicator from CalEnviroScreen.'')
      in square_mark @ '' <strong>'' @ title @ '':</strong><br>'' @ newline
         @ explainText @ ''<br>'' @ newline
         @ ''<strong>Value:</strong> '' @ valueStr @ ''<br>'' @ newline
         @ ''<strong>Percentile:</strong> '' @ pctStr @ ''<br>'' @ newline
         @ ''<span style='' @ dquote @ ''opacity:0.9'' @ dquote @ ''>'' @ noteStr @ ''</span>'')"

definition fmtLandslide :: "string \<Rightarrow> string" where
  "fmtLandslide label =
     square_mark @ '' <strong>Landslide Susceptibility:</strong><br>'' @ newline
     @ ''Class <strong>'' @ label @ ''</strong> (California Geological Survey).<br>'' @ newline
     @ ''Higher classes generally indicate terrain more prone to slope failure under triggers like intense rainfall, earthquakes, and drainage changes.''"

definition fmtShaking :: "real \<Rightarrow> mmi_format \<Rightarrow> string" where
  "fmtShaking mmi fmt =
     square_mark @ '' <strong>Shaking Potential (MMI, 10%/50yr):</strong><br>'' @ newline
     @ ''Estimated intensity: <strong>'' @ fmt_valueStr fmt @ ''</strong> ('' @ fmt_label fmt @ '').<br>'' @ newline
     @ ''MMI is a human-impact scale: higher values generally mean stronger shaking and greater potential for damage.''"

subsection \<open>The seven lookups\<close>

datatype exn = TypeError

definition fire_note :: string where
  "fire_note = ''<br><em>Note: Zones are designated by CAL FIRE for planning and mitigation guidance.</em>''"

definition flood_note :: string where
  "flood_note = ''<br><em>Note: FEMA flood zones guide insurance and floodplain decisions.</em>''"

text \<open>
  Fire: LRA contains, then SRA contains, then nearest across both. The result is the list of
  queries issued, in order, and the text assigned to \<^verbatim>\<open>results.fire\<close>. Every response
  is read through optional chaining, so no statement of the \<^verbatim>\<open>try\<close> block throws on
  the responses modelled here and the \<^verbatim>\<open>catch\<close> clause is not a branch of the model;
  \<^verbatim>\<open>finally\<close> runs \<^verbatim>\<open>checkDone\<close>.
\<close>

definition fire_lookup :: "lib \<Rightarrow> provider \<Rightarrow> latlng \<Rightarrow> query list \<times> string" where
  "fire_lookup L P e =
     (let (q1, lraRes) = queryContains P FireHazardLRA e;
          after_lra =
            (let (q2, sraRes) = queryContains P FireHazardSRA e;
                 after_sra =
                   (let (calls, nearestText) =
                          nearestByEdgeDistanceAcross L P [FireHazardLRA, FireHazardSRA] e
                            ''Fire Hazard Zone'' ''FHSZ_Description''
                    in ([q1, q2] @ calls, nearestText @ fire_note))
             in if err sraRes = None then
                  (case fc sraRes of
                     Some (f0 # rest) \<Rightarrow>
                       ([q1, q2], fmtFireInside L (property f0 ''FHSZ_Description'') ''SRA'')
                   | _ \<Rightarrow> after_sra)
                else after_sra)
      in if err lraRes = None then
           (case fc lraRes of
              Some (f0 # rest) \<Rightarrow> ([q1], fmtFireInside L (property f0 ''FHSZ_Description'') ''LRA'')
            | _ \<Rightarrow> after_lra)
         else after_lra)"

definition set_fire :: "string \<Rightarrow> click_state \<Rightarrow> click_state" where
  "set_fire t st = st\<lparr>results := (results st)\<lparr>fire := t\<rparr>\<rparr>"

definition set_flood :: "string \<Rightarrow> click_state \<Rightarrow> click_state" where
  "set_flood t st = st\<lparr>results := (results st)\<lparr>flood := t\<rparr>\<rparr>"

definition set_ozone :: "string \<Rightarrow> click_state \<Rightarrow> click_state" where
  "set_ozone t st = st\<lparr>results := (results st)\<lparr>ozone := t\<rparr>\<rparr>"

definition set_pm :: "string \<Rightarrow> click_state \<Rightarrow> click_state" where
  "set_pm t st = st\<lparr>results := (results st)\<lparr>pm := t\<rparr>\<rparr>"

definition set_drink :: "string \<Rightarrow> click_state \<Rightarrow> click_state" where
  "set_drink t st = st\<lparr>results := (results st)\<lparr>drink := t\<rparr>\<rparr>"

definition set_landslide :: "string \<Rightarrow> click_state \<Rightarrow> click_state" where
  "set_landslide t st = st\<lparr>results := (results st)\<lparr>landslide := t\<rparr>\<rparr>"

definition set_shaking :: "string \<Rightarrow> click_state \<Rightarrow> click_state" where
  "set_shaking t st = st\<lparr>results := (results st)\<lparr>shaking := t\<rparr>\<rparr>"

definition fire_task :: "lib \<Rightarrow> provider \<Rightarrow> latlng \<Rightarrow> click_state \<Rightarrow> click_state" where
  "fire_task L P e st = checkDone (set_fire (snd (fire_lookup L P e)) st)"

text \<open>
  Flood: contains, then nearest. The result is the queries issued and the text assigned to
  \<^verbatim>\<open>results.flood\<close> before \<^verbatim>\<open>checkDone\<close>; \<open>None\<close> when the nearest search never
  calls back. Inside the \<^verbatim>\<open>try\<close>, \<^verbatim>\<open>fc.features\<close> throws when the callback has
  neither an error nor a collection, and the \<^verbatim>\<open>catch\<close> clause assigns the error text.
\<close>

definition flood_error_text :: string where
  "flood_error_text = square_mark @ '' <strong>Flood Hazard Zone:</strong> Error fetching data.''"

definition flood_lookup :: "lib \<Rightarrow> provider \<Rightarrow> latlng \<Rightarrow> query list \<times> string option" where
  "flood_lookup L P e =
     (let q = Contains FloodLayer e;
          r = P q;
          nearest =
            (let (calls, txt) =
                   getClosestFeatureByEdgeDistance L P FloodLayer e ''Flood Hazard Zone'' ''ESRI_SYMBOLOGY''
             in (q # calls, map_option (\<lambda>t. t @ flood_note) txt))
      in if err r = None then
           (case fc r of
              None \<Rightarrow> ([q], Some flood_error_text)
            | Some [] \<Rightarrow> nearest
            | Some (f0 # rest) \<Rightarrow> ([q], Some (fmtFloodInside L (property f0 ''ESRI_SYMBOLOGY''))))
         else nearest)"

definition flood_task :: "lib \<Rightarrow> provider \<Rightarrow> latlng \<Rightarrow> click_state \<Rightarrow> click_state" where
  "flood_task L P e st =
     (case snd (flood_lookup L P e) of
        Some t \<Rightarrow> checkDone (set_flood t st)
      | None \<Rightarrow> st)"

text \<open>
  The three CalEnviroScreen lookups. \<^verbatim>\<open>p.x?.toFixed(n) ?? "unknown"\<close> throws a TypeError
  when the property is a string; \<^verbatim>\<open>Math.round\<close> converts its argument to a number.
\<close>

definition optional_toFixed :: "nat \<Rightarrow> jsval \<Rightarrow> exn + string" where
  "optional_toFixed f v =
     (case v of
        JUndefined \<Rightarrow> Inr ''unknown''
      | JNull \<Rightarrow> Inr ''unknown''
      | JNum n \<Rightarrow> Inr (num_toFixed f n)
      | JStr s \<Rightarrow> Inl TypeError)"

fun Math_round :: "jsnum \<Rightarrow> jsnum" where
  "Math_round (Fin x) = Fin (of_int \<lfloor>x + 1 / 2\<rfloor>)"
| "Math_round n = n"

definition percentile_text :: "lib \<Rightarrow> jsval \<Rightarrow> string" where
  "percentile_text L v =
     (if v \<noteq> JUndefined then template L (JNum (Math_round (Number L v))) else ''unknown'')"

text \<open>
  The body of the \<^verbatim>\<open>try\<close> of a CalEnviroScreen handler: a TypeError, or the text assigned
  to the slot, or no assignment.
\<close>

definition ozone_try :: "lib \<Rightarrow> qresp \<Rightarrow> exn + string option" where
  "ozone_try L r =
     (if err r = None then
        (case fc r of
           None \<Rightarrow> Inl TypeError
         | Some [] \<Rightarrow> Inr None
         | Some (p # rest) \<Rightarrow>
             (case optional_toFixed 3 (property p ''ozone'') of
                Inl ex \<Rightarrow> Inl ex
              | Inr ppm \<Rightarrow>
                  Inr (Some (fmtCalEnviro ''ozone'' ''Ozone (Ground-Level)'' (ppm @ '' ppm'')
                    (percentile_text L (property p ''ozoneP''))
                    (''<em>(Data from 2017'' @ en_dash @ ''2019)</em>'')))))
      else Inr None)"

definition pm_try :: "lib \<Rightarrow> qresp \<Rightarrow> exn + string option" where
  "pm_try L r =
     (if err r = None then
        (case fc r of
           None \<Rightarrow> Inl TypeError
         | Some [] \<Rightarrow> Inr None
         | Some (p # rest) \<Rightarrow>
             (case optional_toFixed 2 (property p ''pm'') of
                Inl ex \<Rightarrow> Inl ex
              | Inr v \<Rightarrow>
                  Inr (Some (fmtCalEnviro ''pm'' ''PM2.5 (Fine Particulate Matter)''
                    (v @ '' '' @ micro_sign @ ''g/m'' @ superscript_three)
                    (percentile_text L (property p ''pmP''))
                    (''<em>(Data from 2015'' @ en_dash @ ''2017)</em>'')))))
      else Inr None)"

definition drink_try :: "lib \<Rightarrow> qresp \<Rightarrow> exn + string option" where
  "drink_try L r =
     (if err r = None then
        (case fc r of
           None \<Rightarrow> Inl TypeError
         | Some [] \<Rightarrow> Inr None
         | Some (p # rest) \<Rightarrow>
             (case optional_toFixed 2 (property p ''drink'') of
                Inl ex \<Rightarrow> Inl ex
              | Inr v \<Rightarrow>
                  Inr (Some (fmtCalEnviro ''drink'' ''Drinking Water Contaminants'' v
                    (percentile_text L (property p ''drinkP''))
                    (''<em>(Data from 2011'' @ en_dash @ ''2019 compliance cycle)</em>'')))))
      else Inr None)"

definition ozone_error_text :: string where
  "ozone_error_text = square_mark @ '' <strong>Ozone:</strong> Error fetching data.''"

definition pm_error_text :: string where
  "pm_error_text = square_mark @ '' <strong>PM2.5:</strong> Error fetching data.''"

definition drink_error_text :: string where
  "drink_error_text = square_mark @ '' <strong>Drinking Water:</strong> Error fetching data.''"

definition ozone_task :: "lib \<Rightarrow> provider \<Rightarrow> latlng \<Rightarrow> click_state \<Rightarrow> click_state" where
  "ozone_task L P e st =
     checkDone (case ozone_try L (P (Contains OzoneLayer e)) of
                  Inl e2 \<Rightarrow> set_ozone ozone_error_text st
                | Inr (Some t) \<Rightarrow> set_ozone t st
                | Inr None \<Rightarrow> st)"

definition pm_task :: "lib \<Rightarrow> provider \<Rightarrow> latlng \<Rightarrow> click_state \<Rightarrow> click_state" where
  "pm_task L P e st =
     checkDone (case pm_try L (P (Contains PmLayer e)) of
                  Inl e2 \<Rightarrow> set_pm pm_error_text st
                | Inr (Some t) \<Rightarrow> set_pm t st
                | Inr None \<Rightarrow> st)"

definition drink_task :: "lib \<Rightarrow> provider \<Rightarrow> latlng \<Rightarrow> click_state \<Rightarrow> click_state" where
  "drink_task L P e st =
     checkDone (case drink_try L (P (Contains DrinkLayer e)) of
                  Inl e2 \<Rightarrow> set_drink drink_error_text st
                | Inr (Some t) \<Rightarrow> set_drink t st
                | Inr None \<Rightarrow> st)"

definition landslide_error_text :: string where
  "landslide_error_text = square_mark @ '' <strong>Landslide Susceptibility:</strong> Error fetching value.''"

definition shaking_error_text :: string where
  "shaking_error_text = square_mark @ '' <strong>Shaking Potential:</strong> Error fetching value.''"

text \<open>Landslide: \<^verbatim>\<open>if (label)\<close> holds for a non-empty string.\<close>

definition landslide_task :: "landslide_callback \<Rightarrow> click_state \<Rightarrow> click_state" where
  "landslide_task cb st =
     checkDone (case identifyLandslideAt cb of
                  Resolved label \<Rightarrow>
                    (case label of
                       Some l \<Rightarrow> if l \<noteq> [] then set_landslide (fmtLandslide l) st else st
                     | None \<Rightarrow> st)
                | Rejected err2 \<Rightarrow> set_landslide landslide_error_text st)"

definition shaking_task :: "lib \<Rightarrow> mmi_callback \<Rightarrow> click_state \<Rightarrow> click_state" where
  "shaking_task L cb st =
     checkDone (case identifyMMIAt L cb of
                  Resolved mmi \<Rightarrow>
                    (case mmi of
                       Some x \<Rightarrow> set_shaking (fmtShaking x (formatMMI x)) st
                     | None \<Rightarrow> st)
                | Rejected err2 \<Rightarrow> set_shaking shaking_error_text st)"

subsection \<open>One click\<close>

text \<open>
  Everything the outside world answers to one click: the feature queries, and the callbacks
  of the two identify calls.
\<close>

record world =
  provider :: provider
  landslide_cb :: landslide_callback
  mmi_cb :: mmi_callback

datatype slot = Fire | Flood | Ozone | Pm | Drink | Landslide | Shaking

text \<open>
  A lookup touches the shared state of the click in one synchronous step only, its last: the
  assignment to its own field of \<^verbatim>\<open>results\<close> followed by \<^verbatim>\<open>checkDone()\<close>. Whatever
  the interleaving of the seven lookups, the state of the click is therefore the result of
  these last steps in the order in which the lookups finish.
\<close>

fun settle :: "lib \<Rightarrow> world \<Rightarrow> latlng \<Rightarrow> slot \<Rightarrow> click_state \<Rightarrow> click_state" where
  "settle L W e Fire st = fire_task L (provider W) e st"
| "settle L W e Flood st = flood_task L (provider W) e st"
| "settle L W e Ozone st = ozone_task L (provider W) e st"
| "settle L W e Pm st = pm_task L (provider W) e st"
| "settle L W e Drink st = drink_task L (provider W) e st"
| "settle L W e Landslide st = landslide_task (landslide_cb W) st"
| "settle L W e Shaking st = shaking_task L (mmi_cb W) st"

definition run_click :: "lib \<Rightarrow> world \<Rightarrow> bool \<Rightarrow> latlng \<Rightarrow> slot list \<Rightarrow> click_state" where
  "run_click L W hasReportEl e finished =
     foldl (\<lambda>st s. settle L W e s st) (click_start hasReportEl e) finished"

subsection \<open>Reading the state of a click\<close>

fun slot_of :: "slot \<Rightarrow> results \<Rightarrow> string" where
  "slot_of Fire r = fire r"
| "slot_of Flood r = flood r"
| "slot_of Ozone r = ozone r"
| "slot_of Pm r = pm r"
| "slot_of Drink r = drink r"
| "slot_of Landslide r = landslide r"
| "slot_of Shaking r = shaking r"

definition all_slots :: "slot list" where
  "all_slots = [Fire, Flood, Ozone, Pm, Drink, Landslide, Shaking]"

text \<open>The text a lookup leaves in its slot: the slot after the lookup has run on a fresh click.\<close>

definition slot_text :: "lib \<Rightarrow> world \<Rightarrow> latlng \<Rightarrow> slot \<Rightarrow> string" where
  "slot_text L W e s = slot_of s (results (settle L W e s (click_start False e)))"

text \<open>
  A query callback that has an error or a feature collection. The handler of the flood
  proximity query has no \<^verbatim>\<open>try\<close>; these are the callbacks on which it calls back.
\<close>

definition carries_collection :: "qresp \<Rightarrow> bool" where
  "carries_collection r = (err r = None \<longrightarrow> fc r \<noteq> None)"

text \<open>When a containment query yields a containing feature: the first one returned.\<close>

definition first_contained :: "qresp \<Rightarrow> feature option" where
  "first_contained r =
     (if err r = None then (case fc r of Some (f0 # rest) \<Rightarrow> Some f0 | _ \<Rightarrow> None) else None)"

text \<open>The features of a proximity answer that the nearest search across layers looks at.\<close>

definition nearby_features :: "qresp \<Rightarrow> feature list" where
  "nearby_features r = (if err r = None then (case fc r of Some fs \<Rightarrow> fs | None \<Rightarrow> []) else [])"



subsection \<open>The last step of a lookup as one write\<close>

fun set_slot :: "slot \<Rightarrow> string \<Rightarrow> click_state \<Rightarrow> click_state" where
  "set_slot Fire = set_fire"
| "set_slot Flood = set_flood"
| "set_slot Ozone = set_ozone"
| "set_slot Pm = set_pm"
| "set_slot Drink = set_drink"
| "set_slot Landslide = set_landslide"
| "set_slot Shaking = set_shaking"

fun assigned :: "lib \<Rightarrow> world \<Rightarrow> latlng \<Rightarrow> slot \<Rightarrow> string option" where
  "assigned L W e Fire = Some (snd (fire_lookup L (provider W) e))"
| "assigned L W e Flood = snd (flood_lookup L (provider W) e)"
| "assigned L W e Ozone =
     (case ozone_try L (provider W (Contains OzoneLayer e)) of
        Inl x \<Rightarrow> Some ozone_error_text
      | Inr a \<Rightarrow> a)"
| "assigned L W e Pm =
     (case pm_try L (provider W (Contains PmLayer e)) of
        Inl x \<Rightarrow> Some pm_error_text
      | Inr a \<Rightarrow> a)"
| "assigned L W e Drink =
     (case drink_try L (provider W (Contains DrinkLayer e)) of
        Inl x \<Rightarrow> Some drink_error_text
      | Inr a \<Rightarrow> a)"
| "assigned L W e Landslide =
     (case identifyLandslideAt (landslide_cb W) of
        Resolved label \<Rightarrow>
          (case label of Some l \<Rightarrow> if l \<noteq> [] then Some (fmtLandslide l) else None | None \<Rightarrow> None)
      | Rejected x \<Rightarrow> Some landslide_error_text)"
| "assigned L W e Shaking =
     (case identifyMMIAt L (mmi_cb W) of
        Resolved mmi \<Rightarrow> (case mmi of Some x \<Rightarrow> Some (fmtShaking x (formatMMI x)) | None \<Rightarrow> None)
      | Rejected x \<Rightarrow> Some shaking_error_text)"

definition write_slot :: "slot \<Rightarrow> string option \<Rightarrow> click_state \<Rightarrow> click_state" where
  "write_slot s a st = (case a of Some txt \<Rightarrow> set_slot s txt st | None \<Rightarrow> st)"

text \<open>
  The state of a click once the lookups of the slots in \<open>S\<close> have finished, on a page whose
  log was \<open>p0\<close> when the lookups started.
\<close>

definition click_inv ::
    "lib \<Rightarrow> world \<Rightarrow> latlng \<Rightarrow> bool \<Rightarrow> dom_effect list \<Rightarrow> slot set \<Rightarrow> click_state \<Rightarrow> bool" where
  "click_inv L W e h p0 S st =
     ((\<forall>s. slot_of s (results st) = (if s \<in> S then slot_text L W e s else slot_of s default_results))
      \<and> completed st = card S
      \<and> reportEl st = h
      \<and> page st = p0 @
          (if card S = 7
           then (if h then [SetReport (join ''<br><br>'' (map (slot_text L W e) all_slots))] else [])
                @ [HideSpinner]
           else []))"

subsection \<open>Minimum-distance selection\<close>

text \<open>
  \<open>first_minimum d usable fs f\<close>: among the features of \<open>fs\<close> whose distance is usable,
  \<open>f\<close> has the least distance, and it is the first one with that distance.
\<close>

definition first_minimum :: "(feature \<Rightarrow> jsnum) \<Rightarrow> (jsnum \<Rightarrow> bool) \<Rightarrow> feature list \<Rightarrow> feature \<Rightarrow> bool" where
  "first_minimum d usable fs f =
     (\<exists>pre post. fs = pre @ f # post \<and> usable (d f)
        \<and> (\<forall>g \<in> set pre. usable (d g) \<longrightarrow> js_lt (d f) (d g))
        \<and> (\<forall>g \<in> set post. usable (d g) \<longrightarrow> \<not> js_lt (d g) (d f)))"

definition not_NaN :: "jsnum \<Rightarrow> bool" where
  "not_NaN x = (\<not> isNaN x)"

subsection \<open>The distance helper, in the words of the specification\<close>


text \<open>
  Modelled from the spec: turf is not part of the repository, so what its functions are
  called for is written down from section 4.3 of the specification, which has the helper
  convert the polygon boundary into a linear ring (or a set of rings), find the nearest point
  on that boundary and return the great-circle distance in miles. A position is a pair of a
  longitude and a latitude in degrees. The great-circle distance of two positions is the
  angle between them, seen from the centre of the sphere, times the radius; the radius is
  the mean radius of the Earth, 6371008.8 m, and a mile is 1609.344 m.
\<close>

definition radians :: "real \<Rightarrow> real" where
  "radians d = d * pi / 180"

definition central_cosine :: "real \<times> real \<Rightarrow> real \<times> real \<Rightarrow> real" where
  "central_cosine p q =
     sin (radians (snd p)) * sin (radians (snd q))
     + cos (radians (snd p)) * cos (radians (snd q)) * cos (radians (fst q - fst p))"








section \<open>The EV charger overlay: debounced fetching\<close>

text \<open>
  The page's timers. A pending timeout is its id and the time, in milliseconds, at which it
  is due; \<^verbatim>\<open>setTimeout\<close> hands out a fresh id, \<^verbatim>\<open>clearTimeout\<close> removes the entry
  (and does nothing for an id that is no longer pending). The only callback ever scheduled
  by this controller is \<^verbatim>\<open>fetchInView\<close>.
\<close>

record bounds =
  southWest :: latlng
  northEast :: latlng

record charger =
  Latitude :: "real option"
  Longitude :: "real option"

text \<open>The body of the OpenChargeMap response: an array of chargers, or some other JSON value.\<close>

datatype fetched = Chargers "charger list" | NotAnArray

record ev_state =
  enabled :: bool
  isLoading :: bool
  timer :: "nat option"
  timers :: "(nat \<times> nat) list"
  next_timer :: nat
  view :: bounds
  requests :: "(nat \<times> bounds) list"
  in_flight :: nat
  markers :: "(real \<times> real) list"
  attribution :: bool

definition EV_FETCH_DEBOUNCE_MS :: nat where
  "EV_FETCH_DEBOUNCE_MS = 600"

definition setTimeout :: "nat \<Rightarrow> nat \<Rightarrow> ev_state \<Rightarrow> nat \<times> ev_state" where
  "setTimeout now ms st =
     (next_timer st,
      st\<lparr>timers := timers st @ [(next_timer st, now + ms)], next_timer := next_timer st + 1\<rparr>)"

definition clearTimeout :: "nat \<Rightarrow> ev_state \<Rightarrow> ev_state" where
  "clearTimeout i st = st\<lparr>timers := filter (\<lambda>p. fst p \<noteq> i) (timers st)\<rparr>"

text \<open>
  \<^verbatim>\<open>fetchInView()\<close>, called at time \<open>now\<close>: nothing when the overlay is off the map,
  nothing while a fetch is loading; otherwise the flag is set and the request for the current
  view is sent. \<open>requests\<close> logs every call of \<^verbatim>\<open>fetch(url)\<close>, \<open>in_flight\<close> counts
  the requests that have not been answered yet.
\<close>

definition fetchInView :: "nat \<Rightarrow> ev_state \<Rightarrow> ev_state" where
  "fetchInView now st =
     (if \<not> enabled st then st
      else if isLoading st then st
      else st\<lparr>isLoading := True,
              requests := requests st @ [(now, view st)],
              in_flight := in_flight st + 1\<rparr>)"

text \<open>
  \<^verbatim>\<open>debounce(fetchInView, UI.EV_FETCH_DEBOUNCE_MS)\<close>: the returned function, called at
  time \<open>now\<close>. The closure variable \<^verbatim>\<open>t\<close> (field \<open>timer\<close>) holds the id of the last timeout set.
\<close>

definition fetchDebounced :: "nat \<Rightarrow> ev_state \<Rightarrow> ev_state" where
  "fetchDebounced now st =
     (let st1 = (case timer st of Some i \<Rightarrow> clearTimeout i st | None \<Rightarrow> st);
          (i, st2) = setTimeout now EV_FETCH_DEBOUNCE_MS st1
      in st2\<lparr>timer := Some i\<rparr>)"

text \<open>The markers built by the \<^verbatim>\<open>forEach\<close>: a charger without coordinates (or at 0) is skipped.\<close>

definition charger_marker :: "charger \<Rightarrow> (real \<times> real) option" where
  "charger_marker c =
     (case (Latitude c, Longitude c) of
        (Some la, Some lo) \<Rightarrow> if la = 0 \<or> lo = 0 then None else Some (la, lo)
      | _ \<Rightarrow> None)"

datatype ev_event =
    Moveend bounds
  | OverlayAdd bool
  | OverlayRemove bool
  | ZoomToggle bool
  | FetchResolved fetched
  | FetchRejected

text \<open>
  The handlers installed by \<^verbatim>\<open>installHandlers\<close>, and the two ends of the fetch promise.
  \<open>OverlayAdd b\<close> and \<open>OverlayRemove b\<close> carry whether the event's layer is this overlay;
  the layers control has then already put the layer on the map or taken it off.
  \<open>ZoomToggle b\<close> is \<^verbatim>\<open>toggleAtZoom\<close> adding or removing the layer. A response arrives
  only for a request that is in flight.
\<close>

fun ev_handle :: "nat \<Rightarrow> ev_event \<Rightarrow> ev_state \<Rightarrow> ev_state" where
  "ev_handle now (Moveend b) st = fetchDebounced now (st\<lparr>view := b\<rparr>)"
| "ev_handle now (OverlayAdd this) st =
     (if this then fetchInView now (st\<lparr>enabled := True, attribution := True\<rparr>) else st)"
| "ev_handle now (OverlayRemove this) st =
     (if this then st\<lparr>enabled := False, attribution := False, markers := []\<rparr> else st)"
| "ev_handle now (ZoomToggle b) st = st\<lparr>enabled := b\<rparr>"
| "ev_handle now (FetchResolved d) st =
     (if in_flight st = 0 then st
      else (case d of
              Chargers cs \<Rightarrow>
                st\<lparr>markers := List.map_filter charger_marker cs, isLoading := False,
                   in_flight := in_flight st - 1\<rparr>
            | NotAnArray \<Rightarrow>
                st\<lparr>markers := [], isLoading := False, in_flight := in_flight st - 1\<rparr>))"
| "ev_handle now FetchRejected st =
     (if in_flight st = 0 then st
      else st\<lparr>isLoading := False, in_flight := in_flight st - 1\<rparr>)"

text \<open>
  Time passing to \<open>now\<close>: every pending timeout that is due fires, earliest first, and runs
  \<^verbatim>\<open>fetchInView\<close> at its due time.
\<close>

definition fire_timer :: "ev_state \<Rightarrow> nat \<times> nat \<Rightarrow> ev_state" where
  "fire_timer st p = fetchInView (snd p) (st\<lparr>timers := filter (\<lambda>q. fst q \<noteq> fst p) (timers st)\<rparr>)"

definition advance :: "nat \<Rightarrow> ev_state \<Rightarrow> ev_state" where
  "advance now st = foldl fire_timer st (sort_key snd (filter (\<lambda>p. snd p \<le> now) (timers st)))"

fun run_events :: "(nat \<times> ev_event) list \<Rightarrow> ev_state \<Rightarrow> ev_state" where
  "run_events [] st = st"
| "run_events ((now, ev) # rest) st = run_events rest (ev_handle now ev (advance now st))"

definition ev_init :: "bounds \<Rightarrow> ev_state" where
  "ev_init b =
     \<lparr>enabled = False, isLoading = False, timer = None, timers = [], next_timer = 1, view = b,
      requests = [], in_flight = 0, markers = [], attribution = False\<rparr>"

text \<open>A burst: times in order, each less than \<open>ms\<close> after the one before.\<close>

fun burst :: "nat \<Rightarrow> nat list \<Rightarrow> bool" where
  "burst ms [] = False"
| "burst ms [a] = True"
| "burst ms (a # b # r) = (a \<le> b \<and> b < a + ms \<and> burst ms (b # r))"

subsection \<open>Traces of the overlay\<close>

text \<open>The busy flag tells whether a request is in flight, and there is at most one.\<close>

definition ev_inv :: "ev_state \<Rightarrow> bool" where
  "ev_inv st = (in_flight st \<le> 1 \<and> (isLoading st \<longleftrightarrow> in_flight st = 1))"

text \<open>A sequence of map moves, each with its time and the view it leaves.\<close>

definition moveends :: "(nat \<times> bounds) list \<Rightarrow> (nat \<times> ev_event) list" where
  "moveends evs = map (\<lambda>p. (fst p, Moveend (snd p))) evs"

section \<open>Sample inputs\<close>

text \<open>
  Two libraries to run the code on. The first is a flat stand-in, for running the searches
  on small inputs: a polygon's line is its coordinates, the nearest point on a line is its
  first position, and the distance between two points is the sum of the differences of their
  coordinates, in degrees. It is not turf; the searches only compare and print what the
  distance helper returns. The second measures the great-circle distance in miles; its
  nearest point is again the first position of the line, which is the nearest one when the
  click is that position.
\<close>

fun first_position :: "coords \<Rightarrow> real \<times> real" where
  "first_position (Position (x # y # r)) = (x, y)"
| "first_position (Position r) = (0, 0)"
| "first_position (Coords (c # cs)) = first_position c"
| "first_position (Coords []) = (0, 0)"

definition sample_lib :: lib where
  "sample_lib =
     \<lparr>turf_polygonToLine = coordinates,
      turf_nearestPointOnLine = (\<lambda>line p. first_position line),
      turf_distance = (\<lambda>p q units. Fin (\<bar>fst p - fst q\<bar> + \<bar>snd p - snd q\<bar>)),
      number_toString = toFixed 3,
      string_toNumber = StringToNumber\<rparr>"


definition sample_click :: latlng where
  "sample_click = \<lparr>lat = 37, lng = -120\<rparr>"

definition failed_mmi :: mmi_callback where
  "failed_mmi = \<lparr>mmi_err = Some ''timeout'', mmi_res = None, mmi_raw = None\<rparr>"

definition failed_landslide :: landslide_callback where
  "failed_landslide = \<lparr>identify_error = Some ''timeout'', parsed_label = None\<rparr>"

definition polygon_at :: "real \<Rightarrow> real \<Rightarrow> geometry" where
  "polygon_at x y =
     \<lparr>gtype = ''Polygon'',
      coordinates =
        Coords [Coords [Position [x, y], Position [x + 1, y], Position [x, y + 1], Position [x, y]]]\<rparr>"

definition zone_far :: feature where
  "zone_far =
     \<lparr>geometry = polygon_at (-120) 39,
      properties = [(''FHSZ_Description'', JStr ''Moderate''),
                    (''ESRI_SYMBOLOGY'', JStr ''Regulatory Floodway'')]\<rparr>"

definition zone_near :: feature where
  "zone_near =
     \<lparr>geometry = polygon_at (-120.5) 37,
      properties = [(''FHSZ_Description'', JStr ''High''),
                    (''ESRI_SYMBOLOGY'', JStr ''1% Annual Chance Flood Hazard'')]\<rparr>"

definition zone_tie :: feature where
  "zone_tie =
     \<lparr>geometry = \<lparr>gtype = ''MultiPolygon'', coordinates = Coords [coordinates (polygon_at (-120) 37.5)]\<rparr>,
      properties = [(''FHSZ_Description'', JStr ''Very High'')]\<rparr>"


definition station :: feature where
  "station =
     \<lparr>geometry = \<lparr>gtype = ''Point'', coordinates = Position [-120, 37]\<rparr>,
      properties = [(''FHSZ_Description'', JStr ''None'')]\<rparr>"

definition tract :: feature where
  "tract =
     \<lparr>geometry = polygon_at (-121) 36,
      properties = [(''ozone'', JNum (Fin 0.0462)), (''ozoneP'', JNum (Fin 53.5)),
                    (''pm'', JNum (Fin 8.714))]\<rparr>"

fun sample_provider :: provider where
  "sample_provider (Contains FireHazardLRA p) = \<lparr>err = None, fc = Some []\<rparr>"
| "sample_provider (Contains FireHazardSRA p) = \<lparr>err = Some ''timeout'', fc = None\<rparr>"
| "sample_provider (Nearby FireHazardLRA p m) = \<lparr>err = None, fc = Some [zone_far, station, zone_near]\<rparr>"
| "sample_provider (Nearby FireHazardSRA p m) = \<lparr>err = None, fc = Some [zone_tie]\<rparr>"
| "sample_provider (Contains FloodLayer p) = \<lparr>err = None, fc = Some []\<rparr>"
| "sample_provider (Nearby FloodLayer p m) = \<lparr>err = None, fc = Some [zone_far, zone_near]\<rparr>"
| "sample_provider (Contains OzoneLayer p) = \<lparr>err = None, fc = Some [tract]\<rparr>"
| "sample_provider (Contains PmLayer p) = \<lparr>err = None, fc = Some []\<rparr>"
| "sample_provider (Contains DrinkLayer p) = \<lparr>err = None, fc = None\<rparr>"
| "sample_provider (Nearby l p m) = \<lparr>err = Some ''not queried'', fc = None\<rparr>"

definition sample_world :: world where
  "sample_world =
     \<lparr>provider = sample_provider,
      landslide_cb = \<lparr>identify_error = None, parsed_label = Some ''VII''\<rparr>,
      mmi_cb = \<lparr>mmi_err = None, mmi_res = None,
                mmi_raw = Some \<lparr>raw_pixel = Some (JStr ''6.5''), raw_value = JUndefined\<rparr>\<rparr>\<rparr>"

text \<open>
  The flood proximity query calls back with neither an error nor a collection; everything
  else is answered as in the sample world.
\<close>

definition stuck_world :: world where
  "stuck_world =
     sample_world\<lparr>provider :=
       (\<lambda>q. if q = Nearby FloodLayer sample_click NEARBY_METERS
             then \<lparr>err = None, fc = None\<rparr> else sample_provider q)\<rparr>"


text \<open>Providers whose containment queries find features.\<close>

fun inside_provider :: provider where
  "inside_provider (Contains FireHazardLRA p) = \<lparr>err = None, fc = Some [zone_far, zone_near]\<rparr>"
| "inside_provider (Contains FloodLayer p) = \<lparr>err = None, fc = Some [zone_near, zone_far]\<rparr>"
| "inside_provider q = \<lparr>err = None, fc = Some []\<rparr>"

fun sra_provider :: provider where
  "sra_provider (Contains FireHazardSRA p) = \<lparr>err = None, fc = Some [zone_tie, zone_far]\<rparr>"
| "sra_provider q = \<lparr>err = None, fc = Some []\<rparr>"

text \<open>States of the overlay: shown and idle; shown with a fetch in flight.\<close>

definition view_at :: "real \<Rightarrow> bounds" where
  "view_at x = \<lparr>southWest = \<lparr>lat = 37, lng = x\<rparr>, northEast = \<lparr>lat = 38, lng = x + 1\<rparr>\<rparr>"

definition enabled_state :: ev_state where
  "enabled_state = run_events [(0, ZoomToggle True)] (ev_init (view_at (-120)))"

definition loading_state :: ev_state where
  "loading_state = run_events [(0, OverlayAdd True)] (ev_init (view_at (-120)))"

section \<open>Properties\<close>

subsection \<open>Basic facts about the click state\<close>

lemma checkDone_results: "results (checkDone st) = results st"
  by (simp add: checkDone_def Let_def)

lemma fmtShaking_not_error: "fmtShaking x f \<noteq> shaking_error_text"
  by (simp add: fmtShaking_def shaking_error_text_def square_mark_def)

subsection \<open>The barrier of the click report\<close>

lemma getClosest_calls_back:
  "carries_collection (P (Nearby layer e NEARBY_METERS)) \<Longrightarrow>
   \<exists>t. snd (getClosestFeatureByEdgeDistance L P layer e label field) = Some t"
  by (auto simp: getClosestFeatureByEdgeDistance_def carries_collection_def Let_def
      split: option.splits prod.splits)

lemma flood_lookup_settles:
  "carries_collection (P (Nearby FloodLayer e NEARBY_METERS)) \<Longrightarrow>
   \<exists>t. snd (flood_lookup L P e) = Some t"
  using getClosest_calls_back [of P FloodLayer e L "''Flood Hazard Zone''" "''ESRI_SYMBOLOGY''"]
  by (auto simp: flood_lookup_def Let_def split: option.splits list.splits prod.splits)

lemma settle_as_write:
  assumes "carries_collection (provider W (Nearby FloodLayer e NEARBY_METERS))"
  shows "settle L W e s st = checkDone (write_slot s (assigned L W e s) st)"
proof (cases s)
  case Flood
  then show ?thesis
    using flood_lookup_settles [where P = "provider W" and e = e and L = L] assms
    by (auto simp: flood_task_def write_slot_def)
qed (auto simp: write_slot_def fire_task_def ozone_task_def pm_task_def drink_task_def
      landslide_task_def shaking_task_def split: sum.splits option.splits promise.splits)

lemma slot_of_set_slot:
  "slot_of s' (results (set_slot s t st)) = (if s' = s then t else slot_of s' (results st))"
  by (cases s; cases s')
     (simp_all add: set_fire_def set_flood_def set_ozone_def set_pm_def set_drink_def
        set_landslide_def set_shaking_def)

lemma set_slot_other:
  "completed (set_slot s t st) = completed st"
  "reportEl (set_slot s t st) = reportEl st"
  "page (set_slot s t st) = page st"
  by (cases s; simp add: set_fire_def set_flood_def set_ozone_def set_pm_def set_drink_def
        set_landslide_def set_shaking_def)+

lemma write_slot_other:
  "completed (write_slot s a st) = completed st"
  "reportEl (write_slot s a st) = reportEl st"
  "page (write_slot s a st) = page st"
  by (simp_all add: write_slot_def set_slot_other split: option.split)

lemma slot_of_write_slot:
  "slot_of s' (results (write_slot s a st)) =
     (if s' = s then (case a of Some t \<Rightarrow> t | None \<Rightarrow> slot_of s (results st)) else slot_of s' (results st))"
  by (simp add: write_slot_def slot_of_set_slot split: option.split)

lemma checkDone_fields:
  "results (checkDone st) = results st"
  "completed (checkDone st) = completed st + 1"
  "reportEl (checkDone st) = reportEl st"
  "page (checkDone st) = page st @
     (if completed st + 1 = totalTasks
      then (if reportEl st then [SetReport (join ''<br><br>'' (ordered (results st)))] else []) @ [HideSpinner]
      else [])"
  by (simp_all add: checkDone_def Let_def)

lemma slot_text_assigned:
  assumes "carries_collection (provider W (Nearby FloodLayer e NEARBY_METERS))"
  shows "slot_text L W e s = (case assigned L W e s of Some t \<Rightarrow> t | None \<Rightarrow> slot_of s default_results)"
  by (simp add: slot_text_def settle_as_write [OF assms] checkDone_fields slot_of_write_slot
      click_start_def split: option.split)

lemma UNIV_slot: "(UNIV :: slot set) = set all_slots"
  by (auto simp: all_slots_def intro: slot.exhaust)

lemma card_UNIV_slot: "card (UNIV :: slot set) = 7"
  by (simp add: UNIV_slot all_slots_def)

lemma ordered_map: "ordered r = map (\<lambda>s. slot_of s r) all_slots"
  by (simp add: ordered_def all_slots_def)


lemma click_inv_step:
  assumes wf: "carries_collection (provider W (Nearby FloodLayer e NEARBY_METERS))"
    and inv: "click_inv L W e h p0 S st"
    and new: "s \<notin> S"
  shows "click_inv L W e h p0 (insert s S) (settle L W e s st)"
proof -
  have finU: "finite (UNIV :: slot set)" by (simp add: UNIV_slot)
  have fin: "finite S" by (rule finite_subset [OF subset_UNIV finU])
  have lt: "card S < 7"
  proof -
    have "card (insert s S) \<le> card (UNIV :: slot set)"
      by (rule card_mono [OF finU subset_UNIV])
    then show ?thesis using new fin by (simp add: card_UNIV_slot)
  qed
  have card': "card (insert s S) = card S + 1" using new fin by simp
  let ?st' = "settle L W e s st"
  have slots: "slot_of s' (results ?st') =
      (if s' \<in> insert s S then slot_text L W e s' else slot_of s' default_results)" for s'
    using inv new
    by (auto simp: settle_as_write [OF wf] checkDone_fields slot_of_write_slot click_inv_def
        slot_text_assigned [OF wf] split: option.split)
  have pre: "slot_of s' (results (write_slot s (assigned L W e s) st)) =
      (if s' \<in> insert s S then slot_text L W e s' else slot_of s' default_results)" for s'
    using slots [of s'] by (simp add: settle_as_write [OF wf] checkDone_fields)
  have all: "card S + 1 = 7 \<Longrightarrow> insert s S = UNIV"
  proof -
    assume "card S + 1 = 7"
    then have "card (insert s S) = card (UNIV :: slot set)" using card' by (simp add: card_UNIV_slot)
    then show "insert s S = UNIV"
      by (intro card_subset_eq [OF finU subset_UNIV])
  qed
  have ord: "card S + 1 = 7 \<Longrightarrow>
      ordered (results (write_slot s (assigned L W e s) st)) = map (slot_text L W e) all_slots"
    using all pre by (simp add: ordered_map)
  show ?thesis
    unfolding click_inv_def
  proof (intro conjI allI)
    fix s' show "slot_of s' (results ?st') =
      (if s' \<in> insert s S then slot_text L W e s' else slot_of s' default_results)"
      by (rule slots)
  next
    show "completed ?st' = card (insert s S)"
      using inv card' by (simp add: settle_as_write [OF wf] checkDone_fields write_slot_other click_inv_def)
  next
    show "reportEl ?st' = h"
      using inv by (simp add: settle_as_write [OF wf] checkDone_fields write_slot_other click_inv_def)
  next
    show "page ?st' = p0 @
          (if card (insert s S) = 7
           then (if h then [SetReport (join ''<br><br>'' (map (slot_text L W e) all_slots))] else []) @ [HideSpinner]
           else [])"
      using inv lt ord
      by (simp add: card' settle_as_write [OF wf] checkDone_fields write_slot_other click_inv_def totalTasks_def)
  qed
qed

lemma click_inv_run:
  assumes wf: "carries_collection (provider W (Nearby FloodLayer e NEARBY_METERS))"
  shows "click_inv L W e h p0 S st \<Longrightarrow> distinct finished \<Longrightarrow> set finished \<inter> S = {} \<Longrightarrow>
    click_inv L W e h p0 (S \<union> set finished) (foldl (\<lambda>st s. settle L W e s st) st finished)"
proof (induction finished arbitrary: S st)
  case Nil
  then show ?case by simp
next
  case (Cons s rest)
  have "click_inv L W e h p0 (insert s S) (settle L W e s st)"
    using Cons.prems by (intro click_inv_step [OF wf]) auto
  then have "click_inv L W e h p0 (insert s S \<union> set rest)
      (foldl (\<lambda>st s. settle L W e s st) (settle L W e s st) rest)"
    using Cons.prems by (intro Cons.IH) auto
  then show ?case by simp
qed

lemma click_inv_start: "click_inv L W e h (page (click_start h e)) {} (click_start h e)"
  by (simp add: click_inv_def click_start_def)

lemma run_click_inv:
  assumes "carries_collection (provider W (Nearby FloodLayer e NEARBY_METERS))" "distinct finished"
  shows "click_inv L W e h (page (click_start h e)) (set finished) (run_click L W h e finished)"
  using click_inv_run [OF assms(1) click_inv_start assms(2), of L h] by (simp add: run_click_def)


text \<open>
  C1. On a page with the report element, whatever the order in which the seven lookups
  finish, the report written by the click is the seven slot texts joined in the static order
  fire, flood, ozone, pm, drink, landslide, shaking (the flood proximity callback having an
  error or a collection).
\<close>

theorem report_in_static_order:
  assumes "carries_collection (provider W (Nearby FloodLayer e NEARBY_METERS))"
    and "distinct finished" and "set finished = UNIV"
  shows "page (run_click L W True e finished) =
           page (click_start True e) @
             [SetReport (join ''<br><br>''
                [slot_text L W e Fire, slot_text L W e Flood, slot_text L W e Ozone, slot_text L W e Pm,
                 slot_text L W e Drink, slot_text L W e Landslide, slot_text L W e Shaking]),
              HideSpinner]
         \<and> ordered (results (run_click L W True e finished)) =
             [slot_text L W e Fire, slot_text L W e Flood, slot_text L W e Ozone, slot_text L W e Pm,
              slot_text L W e Drink, slot_text L W e Landslide, slot_text L W e Shaking]"
proof -
  let ?R = "run_click L W True e finished"
  have inv: "click_inv L W e True (page (click_start True e)) UNIV ?R"
    using run_click_inv [OF assms(1,2), of L True] assms(3) by simp
  have slots: "slot_of s (results ?R) = slot_text L W e s" for s
    using inv by (simp add: click_inv_def)
  have ord: "ordered (results ?R) = map (slot_text L W e) all_slots"
    by (simp add: ordered_map slots)
  have pg: "page ?R = page (click_start True e) @
      [SetReport (join ''<br><br>'' (map (slot_text L W e) all_slots)), HideSpinner]"
    using inv by (simp add: click_inv_def card_UNIV_slot)
  show ?thesis
    using ord pg by (simp add: all_slots_def)
qed

theorem report_in_static_order_witness:
  "carries_collection (provider sample_world (Nearby FloodLayer sample_click NEARBY_METERS))
   \<and> distinct [Shaking, Drink, Fire, Landslide, Pm, Flood, Ozone]
   \<and> set [Shaking, Drink, Fire, Landslide, Pm, Flood, Ozone] = UNIV
   \<and> page (run_click sample_lib sample_world True sample_click
        [Shaking, Drink, Fire, Landslide, Pm, Flood, Ozone]) =
       page (click_start True sample_click) @
         [SetReport (join ''<br><br>''
            [slot_text sample_lib sample_world sample_click Fire,
             slot_text sample_lib sample_world sample_click Flood,
             slot_text sample_lib sample_world sample_click Ozone,
             slot_text sample_lib sample_world sample_click Pm,
             slot_text sample_lib sample_world sample_click Drink,
             slot_text sample_lib sample_world sample_click Landslide,
             slot_text sample_lib sample_world sample_click Shaking]),
          HideSpinner]"
proof -
  have h1: "carries_collection (provider sample_world (Nearby FloodLayer sample_click NEARBY_METERS))"
    by (simp add: carries_collection_def sample_world_def)
  have h2: "distinct [Shaking, Drink, Fire, Landslide, Pm, Flood, Ozone]" by simp
  have h3: "set [Shaking, Drink, Fire, Landslide, Pm, Flood, Ozone] = UNIV"
    by (auto simp: UNIV_slot all_slots_def)
  show ?thesis
    using h1 h2 h3 report_in_static_order [OF h1 h2 h3, of sample_lib] by simp
qed

text \<open>
  With a flood proximity callback that has an error or a collection, every lookup ends with
  exactly one call of \<^verbatim>\<open>checkDone\<close>, whatever the provider answered (error, empty
  result, exception inside a \<^verbatim>\<open>try\<close>), and it writes no slot but its own. So after
  any number of finished lookups \<^verbatim>\<open>completed\<close> is that number, no report has been
  written while it is below seven, and exactly one report is written when it reaches seven.
\<close>

lemma settles_once_when_called_back:
  assumes "carries_collection (provider W (Nearby FloodLayer e NEARBY_METERS))"
    and "distinct finished"
  shows "(\<forall>s st. completed (settle L W e s st) = completed st + 1)
       \<and> (\<forall>s s' st. s' \<noteq> s \<longrightarrow> slot_of s' (results (settle L W e s st)) = slot_of s' (results st))
       \<and> completed (run_click L W True e finished) = length finished
       \<and> length finished \<le> 7
       \<and> page (run_click L W True e finished) =
           page (click_start True e) @
             (if length finished = 7
              then [SetReport (join ''<br><br>'' (map (slot_text L W e) all_slots)), HideSpinner]
              else [])"
proof -
  let ?R = "run_click L W True e finished"
  have inv: "click_inv L W e True (page (click_start True e)) (set finished) ?R"
    by (rule run_click_inv [OF assms])
  have card: "card (set finished) = length finished"
    using assms(2) by (rule distinct_card)
  have "card (set finished) \<le> card (UNIV :: slot set)"
    by (rule card_mono [OF _ subset_UNIV]) (simp add: UNIV_slot)
  then have le: "length finished \<le> 7"
    by (simp add: card card_UNIV_slot)
  have c1: "\<forall>s st. completed (settle L W e s st) = completed st + 1"
    by (simp add: settle_as_write [OF assms(1)] checkDone_fields write_slot_other)
  have c2: "\<forall>s s' st. s' \<noteq> s \<longrightarrow>
      slot_of s' (results (settle L W e s st)) = slot_of s' (results st)"
    by (simp add: settle_as_write [OF assms(1)] checkDone_fields slot_of_write_slot)
  have c3: "completed ?R = length finished"
    using inv card by (simp add: click_inv_def)
  have c4: "page ?R = page (click_start True e) @
             (if length finished = 7
              then [SetReport (join ''<br><br>'' (map (slot_text L W e) all_slots)), HideSpinner]
              else [])"
    using inv card by (simp add: click_inv_def)
  show ?thesis using c1 c2 c3 le c4 by blast
qed

lemma settle_unless_flood:
  "s \<noteq> Flood \<Longrightarrow> settle L W e s st = checkDone (write_slot s (assigned L W e s) st)"
  by (cases s)
     (auto simp: write_slot_def fire_task_def ozone_task_def pm_task_def drink_task_def
        landslide_task_def shaking_task_def split: sum.splits option.splits promise.splits)

lemma flood_never_called_back:
  assumes "err (P (Nearby FloodLayer e NEARBY_METERS)) = None"
    and "fc (P (Nearby FloodLayer e NEARBY_METERS)) = None"
    and "err (P (Contains FloodLayer e)) \<noteq> None \<or> fc (P (Contains FloodLayer e)) = Some []"
  shows "flood_task L P e st = st"
  using assms
  by (auto simp: flood_task_def flood_lookup_def getClosestFeatureByEdgeDistance_def Let_def)

text \<open>
  C2. The claim is that every click settles each of the seven slots exactly once and renders
  exactly one report, when the count reaches seven. The code misses it on one path. When the
  flood containment query finds nothing and the flood proximity query calls back with
  neither an error nor a collection, \<^verbatim>\<open>fc.features\<close> throws inside the handler of
  \<^verbatim>\<open>getClosestFeatureByEdgeDistance\<close>, the one handler without a \<^verbatim>\<open>try\<close>, and the
  callback that was to call \<^verbatim>\<open>checkDone\<close> is never called: the flood lookup leaves the
  state of the click as it was, and after all seven lookups have finished, in either order
  tried, \<^verbatim>\<open>completed\<close> is six, no report has been written and the spinner is still shown.
\<close>

theorem flood_slot_never_settles:
  "provider stuck_world (Contains FloodLayer sample_click) = \<lparr>err = None, fc = Some []\<rparr>
   \<and> provider stuck_world (Nearby FloodLayer sample_click NEARBY_METERS) = \<lparr>err = None, fc = None\<rparr>
   \<and> settle sample_lib stuck_world sample_click Flood (click_start True sample_click)
        = click_start True sample_click
   \<and> completed (run_click sample_lib stuck_world True sample_click all_slots) = 6
   \<and> page (run_click sample_lib stuck_world True sample_click all_slots)
        = page (click_start True sample_click)
   \<and> completed (run_click sample_lib stuck_world True sample_click (rev all_slots)) = 6
   \<and> page (run_click sample_lib stuck_world True sample_click (rev all_slots))
        = page (click_start True sample_click)"
proof -
  have c: "provider stuck_world (Contains FloodLayer sample_click) = \<lparr>err = None, fc = Some []\<rparr>"
    by (simp add: stuck_world_def sample_world_def)
  have n: "provider stuck_world (Nearby FloodLayer sample_click NEARBY_METERS) = \<lparr>err = None, fc = None\<rparr>"
    by (simp add: stuck_world_def sample_world_def)
  have stuck: "settle sample_lib stuck_world sample_click Flood st = st" for st
    by (simp add: flood_never_called_back c n)
  have run: "completed (run_click sample_lib stuck_world True sample_click all_slots) = 6"
    "page (run_click sample_lib stuck_world True sample_click all_slots)
        = page (click_start True sample_click)"
    "completed (run_click sample_lib stuck_world True sample_click (rev all_slots)) = 6"
    "page (run_click sample_lib stuck_world True sample_click (rev all_slots))
        = page (click_start True sample_click)"
    by (simp_all add: run_click_def all_slots_def stuck settle_unless_flood checkDone_fields
        write_slot_other totalTasks_def click_start_def del: settle.simps)
  show ?thesis
    using c n stuck run by simp
qed

subsection \<open>Evaluating number texts\<close>

lemma digits_numeral:
  "digits (numeral k) =
     (if numeral k < (10::nat) then [digit_char (numeral k)]
      else digits (numeral k div 10) @ [digit_char (numeral k mod 10)])"
  "digits 0 = ''0''"
  "digits 1 = ''1''"
  by (subst digits.simps, simp add: digit_char_def)+

lemmas number_text_eval =
  toFixed_def digits_numeral digit_char_def parseFloat_str_def unsigned_decimal_def
  is_space_def is_digit_def digit_val_def exponent_part_def Let_def

lemma StringToNumber_examples:
  "StringToNumber '''' = Fin 0"
  "StringToNumber ''12abc'' = NaN"
  "StringToNumber '' 6.5 '' = Fin 6.5"
  "StringToNumber ''-.5e1'' = Fin (- 5)"
  "StringToNumber ''0x1F'' = Fin 31"
  "StringToNumber ''-Infinity'' = NegInf"
  by (simp_all add: StringToNumber_def trim_def unsigned_literal_def exponent_literal_def
      radix_literal_def digit_in_def is_space_def is_digit_def digit_val_def Let_def)

lemma sample_intensity:
  "identifyMMIAt sample_lib (mmi_cb sample_world) = Resolved (Some 6.5)"
  by (simp add: identifyMMIAt_def mmi_val_def sample_world_def sample_lib_def
      StringToNumber_def trim_def unsigned_literal_def exponent_literal_def
      radix_literal_def digit_in_def is_space_def is_digit_def digit_val_def Let_def)

lemma sample_dists:
  "edge_dist sample_lib sample_click zone_far = Fin 2"
  "edge_dist sample_lib sample_click zone_near = Fin (1 / 2)"
  "edge_dist sample_lib sample_click zone_tie = Fin (1 / 2)"
  "edge_dist sample_lib sample_click station = NaN"
  by (simp_all add: edge_dist_def getDistanceToPolygonEdge_def sample_lib_def sample_click_def
      zone_far_def zone_near_def zone_tie_def station_def polygon_at_def number_text_eval)

subsection \<open>The nearest searches\<close>

lemma js_lt_trans: "js_lt a b \<Longrightarrow> js_lt b c \<Longrightarrow> js_lt a c"
  by (cases a; cases b; cases c) auto

lemma js_lt_le_trans: "js_lt a b \<Longrightarrow> \<not> js_lt c b \<Longrightarrow> \<not> isNaN c \<Longrightarrow> js_lt a c"
  by (cases a; cases b; cases c) auto

lemma not_lt_PosInf: "\<not> js_lt x PosInf \<Longrightarrow> isNaN x \<or> x = PosInf"
  by (cases x) auto

lemma lt_not_NaN: "js_lt a b \<Longrightarrow> \<not> isNaN a \<and> \<not> isNaN b"
  by (cases a; cases b) auto

lemma first_minimum_new:
  assumes "first_minimum d usable fs f" "usable (d x)" "js_lt (d x) (d f)"
    and "\<And>y. usable y \<Longrightarrow> \<not> isNaN y"
  shows "first_minimum d usable (fs @ [x]) x"
proof -
  from assms(1) obtain pre post where fs: "fs = pre @ f # post" and uf: "usable (d f)"
    and pre: "\<forall>g \<in> set pre. usable (d g) \<longrightarrow> js_lt (d f) (d g)"
    and post: "\<forall>g \<in> set post. usable (d g) \<longrightarrow> \<not> js_lt (d g) (d f)"
    unfolding first_minimum_def by blast
  have "usable (d g) \<longrightarrow> js_lt (d x) (d g)" if "g \<in> set fs" for g
  proof
    assume ug: "usable (d g)"
    from that fs consider "g \<in> set pre" | "g = f" | "g \<in> set post" by auto
    then show "js_lt (d x) (d g)"
    proof cases
      case 1 then show ?thesis using pre ug assms(3) js_lt_trans by blast
    next
      case 2 then show ?thesis using assms(3) by simp
    next
      case 3 then show ?thesis using post ug assms(3,4) js_lt_le_trans by blast
    qed
  qed
  then show ?thesis
    unfolding first_minimum_def using assms(2) by (intro exI [of _ fs] exI [of _ "[]"]) simp
qed

lemma first_minimum_first:
  assumes "\<forall>g \<in> set fs. usable (d g) \<longrightarrow> js_lt (d x) (d g)" "usable (d x)"
  shows "first_minimum d usable (fs @ [x]) x"
  unfolding first_minimum_def using assms by (intro exI [of _ fs] exI [of _ "[]"]) simp

lemma first_minimum_keep:
  assumes "first_minimum d usable fs f" "usable (d x) \<longrightarrow> \<not> js_lt (d x) (d f)"
  shows "first_minimum d usable (fs @ [x]) f"
proof -
  from assms(1) obtain pre post where fs: "fs = pre @ f # post" and uf: "usable (d f)"
    and pre: "\<forall>g \<in> set pre. usable (d g) \<longrightarrow> js_lt (d f) (d g)"
    and post: "\<forall>g \<in> set post. usable (d g) \<longrightarrow> \<not> js_lt (d g) (d f)"
    unfolding first_minimum_def by blast
  show ?thesis
    unfolding first_minimum_def
    using fs uf pre post assms(2)
    by (intro exI [of _ pre] exI [of _ "post @ [x]"]) auto
qed

lemma closest_loop_inv:
  "(case closest_loop d fs of
      (m, None) \<Rightarrow> m = PosInf \<and> (\<forall>g \<in> set fs. isNaN (d g) \<or> d g = PosInf)
    | (m, Some f) \<Rightarrow> m = d f \<and> js_lt m PosInf \<and> first_minimum d not_NaN fs f)"
proof (induction fs rule: rev_induct)
  case Nil
  then show ?case by (simp add: closest_loop_def)
next
  case (snoc x fs)
  obtain m b where acc: "closest_loop d fs = (m, b)" by (cases "closest_loop d fs")
  have step: "closest_loop d (fs @ [x]) = closest_step d (m, b) x"
    using acc by (simp add: closest_loop_def)
  show ?case
  proof (cases "\<not> isNaN (d x) \<and> js_lt (d x) m")
    case True
    then have res: "closest_loop d (fs @ [x]) = (d x, Some x)"
      by (simp add: step closest_step_def)
    have ltinf: "js_lt (d x) PosInf"
    proof (cases b)
      case None then show ?thesis using snoc.IH acc True by simp
    next
      case (Some f) then show ?thesis using snoc.IH acc True js_lt_trans by auto
    qed
    have "first_minimum d not_NaN (fs @ [x]) x"
    proof (cases b)
      case None
      then have "\<forall>g \<in> set fs. isNaN (d g) \<or> d g = PosInf" using snoc.IH acc by simp
      then have "\<forall>g \<in> set fs. not_NaN (d g) \<longrightarrow> js_lt (d x) (d g)"
        using ltinf by (auto simp: not_NaN_def)
      then show ?thesis using True by (intro first_minimum_first) (auto simp: not_NaN_def)
    next
      case (Some f)
      then have "m = d f" "first_minimum d not_NaN fs f" using snoc.IH acc by auto
      then show ?thesis using True
        by (intro first_minimum_new [where f = f]) (auto simp: not_NaN_def)
    qed
    then show ?thesis using res ltinf by simp
  next
    case False
    then have res: "closest_loop d (fs @ [x]) = (m, b)"
      by (auto simp: step closest_step_def)
    show ?thesis
    proof (cases b)
      case None
      then have ih: "m = PosInf" "\<forall>g \<in> set fs. isNaN (d g) \<or> d g = PosInf"
        using snoc.IH acc by auto
      have "isNaN (d x) \<or> d x = PosInf" using False ih(1) not_lt_PosInf by blast
      then show ?thesis using res None ih by auto
    next
      case (Some f)
      then have ih: "m = d f" "js_lt m PosInf" "first_minimum d not_NaN fs f"
        using snoc.IH acc by auto
      have "first_minimum d not_NaN (fs @ [x]) f"
        using ih False by (intro first_minimum_keep) (auto simp: not_NaN_def)
      then show ?thesis using res Some ih by simp
    qed
  qed
qed

lemma across_fold_inv:
  "(case foldl (across_step L e label field) None fs of
      None \<Rightarrow> \<forall>g \<in> set fs. \<not> isFinite (edge_dist L e g)
    | Some b \<Rightarrow> \<exists>f. first_minimum (edge_dist L e) isFinite fs f
          \<and> b = (edge_dist L e f, nearest_text L label (property f field) (edge_dist L e f)))"
proof (induction fs rule: rev_induct)
  case Nil
  then show ?case by simp
next
  case (snoc x fs)
  let ?d = "edge_dist L e"
  let ?acc = "foldl (across_step L e label field) None fs"
  have fin_nn: "\<And>y. isFinite y \<Longrightarrow> \<not> isNaN y" by (case_tac y) auto
  show ?case
  proof (cases "isFinite (?d x)")
    case False
    then have same: "foldl (across_step L e label field) None (fs @ [x]) = ?acc"
      by (simp add: across_step_def Let_def)
    show ?thesis
    proof (cases ?acc)
      case None
      then show ?thesis using snoc.IH same False by auto
    next
      case (Some b)
      then obtain f where f: "first_minimum ?d isFinite fs f"
        "b = (?d f, nearest_text L label (property f field) (?d f))"
        using snoc.IH by auto
      have "first_minimum ?d isFinite (fs @ [x]) f"
        using f(1) False by (intro first_minimum_keep) auto
      then show ?thesis using same Some f(2) by auto
    qed
  next
    case True
    show ?thesis
    proof (cases ?acc)
      case None
      then have res: "foldl (across_step L e label field) None (fs @ [x])
          = Some (?d x, nearest_text L label (property x field) (?d x))"
        using True by (simp add: across_step_def Let_def)
      have "\<forall>g \<in> set fs. \<not> isFinite (?d g)" using snoc.IH None by simp
      then have "first_minimum ?d isFinite (fs @ [x]) x"
        using True by (intro first_minimum_first) auto
      then show ?thesis using res by auto
    next
      case (Some b)
      then obtain f where f: "first_minimum ?d isFinite fs f"
        "b = (?d f, nearest_text L label (property f field) (?d f))"
        using snoc.IH by auto
      show ?thesis
      proof (cases "js_lt (?d x) (?d f)")
        case lt: True
        then have res: "foldl (across_step L e label field) None (fs @ [x])
            = Some (?d x, nearest_text L label (property x field) (?d x))"
          using True Some f(2) by (simp add: across_step_def Let_def)
        have "first_minimum ?d isFinite (fs @ [x]) x"
          using f(1) True lt fin_nn by (intro first_minimum_new [where f = f]) auto
        then show ?thesis using res by auto
      next
        case ge: False
        then have res: "foldl (across_step L e label field) None (fs @ [x]) = Some b"
          using True Some f(2) by (simp add: across_step_def Let_def)
        have "first_minimum ?d isFinite (fs @ [x]) f"
          using f(1) ge by (intro first_minimum_keep) auto
        then show ?thesis using res f(2) by auto
      qed
    qed
  qed
qed

lemma across_layers_eq:
  "across_layers L P e label field ls (calls, best) =
     (calls @ map (\<lambda>l. Nearby l e NEARBY_METERS) ls,
      foldl (across_step L e label field) best
        (concat (map (\<lambda>l. nearby_features (P (Nearby l e NEARBY_METERS))) ls)))"
proof (induction ls arbitrary: calls best)
  case Nil
  then show ?case by simp
next
  case (Cons l ls)
  show ?case
    by (cases "fc (P (Nearby l e NEARBY_METERS))")
       (auto simp: Cons.IH queryNearby_def Let_def nearby_features_def)
qed

lemma first_minimum_exists_usable: "first_minimum d usable fs f \<Longrightarrow> f \<in> set fs \<and> usable (d f)"
  by (auto simp: first_minimum_def)

subsection \<open>The fire tiers\<close>

lemma nearestAcross_eq:
  "nearestByEdgeDistanceAcross L P ls e label field =
     (map (\<lambda>l. Nearby l e NEARBY_METERS) ls,
      (case foldl (across_step L e label field) None
              (concat (map (\<lambda>l. nearby_features (P (Nearby l e NEARBY_METERS))) ls)) of
         Some b \<Rightarrow> snd b
       | None \<Rightarrow> no_nearby_text label))"
  by (simp add: nearestByEdgeDistanceAcross_def across_layers_eq split: option.split)

lemma fire_lookup_eq:
  "fire_lookup L P e =
     (case first_contained (P (Contains FireHazardLRA e)) of
        Some f \<Rightarrow> ([Contains FireHazardLRA e], fmtFireInside L (property f ''FHSZ_Description'') ''LRA'')
      | None \<Rightarrow>
          (case first_contained (P (Contains FireHazardSRA e)) of
             Some f \<Rightarrow>
               ([Contains FireHazardLRA e, Contains FireHazardSRA e],
                fmtFireInside L (property f ''FHSZ_Description'') ''SRA'')
           | None \<Rightarrow>
               ([Contains FireHazardLRA e, Contains FireHazardSRA e]
                  @ fst (nearestByEdgeDistanceAcross L P [FireHazardLRA, FireHazardSRA] e
                          ''Fire Hazard Zone'' ''FHSZ_Description''),
                snd (nearestByEdgeDistanceAcross L P [FireHazardLRA, FireHazardSRA] e
                          ''Fire Hazard Zone'' ''FHSZ_Description'') @ fire_note)))"
  by (simp add: fire_lookup_def first_contained_def queryContains_def Let_def
      split: option.split list.split prod.split)

text \<open>
  C3. The fire lookup queries LRA containment first; it queries SRA containment only when
  the LRA answer holds no containing feature; and it runs the two proximity queries only when
  neither containment answer holds one. The nearest search then ranges over the features of
  both proximity answers, LRA before SRA: with no finite edge distance among them the text is
  \<^verbatim>\<open>No nearby zones found\<close>, otherwise it is the text of the first feature attaining the
  least finite edge distance over both answers.
\<close>

theorem fire_tiers_sequential:
  "fst (fire_lookup L P e) =
     (case first_contained (P (Contains FireHazardLRA e)) of
        Some f \<Rightarrow> [Contains FireHazardLRA e]
      | None \<Rightarrow>
          (case first_contained (P (Contains FireHazardSRA e)) of
             Some f \<Rightarrow> [Contains FireHazardLRA e, Contains FireHazardSRA e]
           | None \<Rightarrow>
               [Contains FireHazardLRA e, Contains FireHazardSRA e,
                Nearby FireHazardLRA e NEARBY_METERS, Nearby FireHazardSRA e NEARBY_METERS]))
   \<and> (first_contained (P (Contains FireHazardLRA e)) = None
        \<and> first_contained (P (Contains FireHazardSRA e)) = None \<longrightarrow>
       (let pool = nearby_features (P (Nearby FireHazardLRA e NEARBY_METERS))
                     @ nearby_features (P (Nearby FireHazardSRA e NEARBY_METERS))
        in ((\<forall>g \<in> set pool. \<not> isFinite (edge_dist L e g)) \<longrightarrow>
              snd (fire_lookup L P e) = no_nearby_text ''Fire Hazard Zone'' @ fire_note)
           \<and> ((\<exists>g \<in> set pool. isFinite (edge_dist L e g)) \<longrightarrow>
              (\<exists>f. first_minimum (edge_dist L e) isFinite pool f
                 \<and> snd (fire_lookup L P e) =
                     nearest_text L ''Fire Hazard Zone'' (property f ''FHSZ_Description'')
                       (edge_dist L e f) @ fire_note))))"
proof (intro conjI impI)
  show "fst (fire_lookup L P e) =
     (case first_contained (P (Contains FireHazardLRA e)) of
        Some f \<Rightarrow> [Contains FireHazardLRA e]
      | None \<Rightarrow>
          (case first_contained (P (Contains FireHazardSRA e)) of
             Some f \<Rightarrow> [Contains FireHazardLRA e, Contains FireHazardSRA e]
           | None \<Rightarrow>
               [Contains FireHazardLRA e, Contains FireHazardSRA e,
                Nearby FireHazardLRA e NEARBY_METERS, Nearby FireHazardSRA e NEARBY_METERS]))"
    by (simp add: fire_lookup_eq nearestAcross_eq split: option.split)
next
  assume none: "first_contained (P (Contains FireHazardLRA e)) = None
        \<and> first_contained (P (Contains FireHazardSRA e)) = None"
  let ?pool = "nearby_features (P (Nearby FireHazardLRA e NEARBY_METERS))
                     @ nearby_features (P (Nearby FireHazardSRA e NEARBY_METERS))"
  let ?acc = "foldl (across_step L e ''Fire Hazard Zone'' ''FHSZ_Description'') None ?pool"
  have ftext: "snd (fire_lookup L P e) =
      (case ?acc of Some b \<Rightarrow> snd b | None \<Rightarrow> no_nearby_text ''Fire Hazard Zone'') @ fire_note"
    using none by (simp add: fire_lookup_eq nearestAcross_eq)
  have inv: "(case ?acc of
      None \<Rightarrow> \<forall>g \<in> set ?pool. \<not> isFinite (edge_dist L e g)
    | Some b \<Rightarrow> \<exists>f. first_minimum (edge_dist L e) isFinite ?pool f
          \<and> b = (edge_dist L e f,
                 nearest_text L ''Fire Hazard Zone'' (property f ''FHSZ_Description'') (edge_dist L e f)))"
    by (rule across_fold_inv)
  have a: "(\<forall>g \<in> set ?pool. \<not> isFinite (edge_dist L e g)) \<longrightarrow>
      snd (fire_lookup L P e) = no_nearby_text ''Fire Hazard Zone'' @ fire_note"
  proof
    assume nf: "\<forall>g \<in> set ?pool. \<not> isFinite (edge_dist L e g)"
    have "?acc = None"
    proof (cases ?acc)
      case (Some b)
      then obtain f where "first_minimum (edge_dist L e) isFinite ?pool f" using inv by auto
      then have "f \<in> set ?pool \<and> isFinite (edge_dist L e f)" by (rule first_minimum_exists_usable)
      then show ?thesis using nf by blast
    qed simp
    then show "snd (fire_lookup L P e) = no_nearby_text ''Fire Hazard Zone'' @ fire_note"
      by (simp add: ftext)
  qed
  have b: "(\<exists>g \<in> set ?pool. isFinite (edge_dist L e g)) \<longrightarrow>
      (\<exists>f. first_minimum (edge_dist L e) isFinite ?pool f
         \<and> snd (fire_lookup L P e) =
             nearest_text L ''Fire Hazard Zone'' (property f ''FHSZ_Description'')
               (edge_dist L e f) @ fire_note)"
  proof
    assume ex: "\<exists>g \<in> set ?pool. isFinite (edge_dist L e g)"
    then obtain bb where some: "?acc = Some bb" using inv by (cases ?acc) auto
    then obtain f where f: "first_minimum (edge_dist L e) isFinite ?pool f"
      "bb = (edge_dist L e f,
            nearest_text L ''Fire Hazard Zone'' (property f ''FHSZ_Description'') (edge_dist L e f))"
      using inv by auto
    show "\<exists>f. first_minimum (edge_dist L e) isFinite ?pool f
         \<and> snd (fire_lookup L P e) =
             nearest_text L ''Fire Hazard Zone'' (property f ''FHSZ_Description'')
               (edge_dist L e f) @ fire_note"
      using f some by (intro exI [of _ f]) (simp add: ftext)
  qed
  show "let pool = ?pool
        in ((\<forall>g \<in> set pool. \<not> isFinite (edge_dist L e g)) \<longrightarrow>
              snd (fire_lookup L P e) = no_nearby_text ''Fire Hazard Zone'' @ fire_note)
           \<and> ((\<exists>g \<in> set pool. isFinite (edge_dist L e g)) \<longrightarrow>
              (\<exists>f. first_minimum (edge_dist L e) isFinite pool f
                 \<and> snd (fire_lookup L P e) =
                     nearest_text L ''Fire Hazard Zone'' (property f ''FHSZ_Description'')
                       (edge_dist L e f) @ fire_note))"
    using a b by (simp add: Let_def)
qed

lemma sample_pool:
  "nearby_features (sample_provider (Nearby FireHazardLRA sample_click NEARBY_METERS))
     @ nearby_features (sample_provider (Nearby FireHazardSRA sample_click NEARBY_METERS))
   = [zone_far, station, zone_near, zone_tie]"
  by (simp add: nearby_features_def)

theorem fire_tiers_sequential_witness:
  "first_contained (sample_provider (Contains FireHazardLRA sample_click)) = None
   \<and> first_contained (sample_provider (Contains FireHazardSRA sample_click)) = None
   \<and> (\<exists>g \<in> set [zone_far, station, zone_near, zone_tie]. isFinite (edge_dist sample_lib sample_click g))
   \<and> fst (fire_lookup sample_lib sample_provider sample_click) =
        [Contains FireHazardLRA sample_click, Contains FireHazardSRA sample_click,
         Nearby FireHazardLRA sample_click NEARBY_METERS, Nearby FireHazardSRA sample_click NEARBY_METERS]
   \<and> (\<exists>f. first_minimum (edge_dist sample_lib sample_click) isFinite
              [zone_far, station, zone_near, zone_tie] f
          \<and> snd (fire_lookup sample_lib sample_provider sample_click) =
              nearest_text sample_lib ''Fire Hazard Zone'' (property f ''FHSZ_Description'')
                (edge_dist sample_lib sample_click f) @ fire_note)"
proof -
  have h1: "first_contained (sample_provider (Contains FireHazardLRA sample_click)) = None"
    "first_contained (sample_provider (Contains FireHazardSRA sample_click)) = None"
    by (simp_all add: first_contained_def)
  have h2: "\<exists>g \<in> set [zone_far, station, zone_near, zone_tie]. isFinite (edge_dist sample_lib sample_click g)"
    by (simp add: sample_dists)
  note inst = fire_tiers_sequential [of sample_lib sample_provider sample_click,
      unfolded Let_def sample_pool]
  have calls: "fst (fire_lookup sample_lib sample_provider sample_click) =
        [Contains FireHazardLRA sample_click, Contains FireHazardSRA sample_click,
         Nearby FireHazardLRA sample_click NEARBY_METERS, Nearby FireHazardSRA sample_click NEARBY_METERS]"
    using inst [THEN conjunct1] by (simp only: h1 option.case)
  have best: "\<exists>f. first_minimum (edge_dist sample_lib sample_click) isFinite
              [zone_far, station, zone_near, zone_tie] f
          \<and> snd (fire_lookup sample_lib sample_provider sample_click) =
              nearest_text sample_lib ''Fire Hazard Zone'' (property f ''FHSZ_Description'')
                (edge_dist sample_lib sample_click f) @ fire_note"
    using inst [THEN conjunct2] h1 h2 by blast
  show ?thesis
    using h1 h2 calls best by blast
qed

text \<open>
  C4. When the containment query of a containment-first source yields a feature (no error,
  a non-empty collection), the lookup issues no proximity query, so the nearest search and
  its edge distances are never entered, and the text is built from the first feature of the
  answer: for flood, for fire LRA, and for fire SRA once LRA has yielded none.
\<close>

theorem containment_first:
  "(first_contained (P (Contains FloodLayer e)) = Some f \<longrightarrow>
      flood_lookup L P e
        = ([Contains FloodLayer e], Some (fmtFloodInside L (property f ''ESRI_SYMBOLOGY''))))
   \<and> (first_contained (P (Contains FireHazardLRA e)) = Some f \<longrightarrow>
      fire_lookup L P e
        = ([Contains FireHazardLRA e], fmtFireInside L (property f ''FHSZ_Description'') ''LRA''))
   \<and> (first_contained (P (Contains FireHazardLRA e)) = None
        \<and> first_contained (P (Contains FireHazardSRA e)) = Some f \<longrightarrow>
      fire_lookup L P e
        = ([Contains FireHazardLRA e, Contains FireHazardSRA e],
           fmtFireInside L (property f ''FHSZ_Description'') ''SRA''))
   \<and> (first_contained r = Some f \<longleftrightarrow> err r = None \<and> (\<exists>rest. fc r = Some (f # rest)))"
proof (intro conjI impI)
  assume "first_contained (P (Contains FloodLayer e)) = Some f"
  then show "flood_lookup L P e
        = ([Contains FloodLayer e], Some (fmtFloodInside L (property f ''ESRI_SYMBOLOGY'')))"
    by (auto simp: flood_lookup_def first_contained_def Let_def
        split: if_splits option.splits list.splits)
next
  assume "first_contained (P (Contains FireHazardLRA e)) = Some f"
  then show "fire_lookup L P e
        = ([Contains FireHazardLRA e], fmtFireInside L (property f ''FHSZ_Description'') ''LRA'')"
    by (simp add: fire_lookup_eq)
next
  assume "first_contained (P (Contains FireHazardLRA e)) = None
        \<and> first_contained (P (Contains FireHazardSRA e)) = Some f"
  then show "fire_lookup L P e
        = ([Contains FireHazardLRA e, Contains FireHazardSRA e],
           fmtFireInside L (property f ''FHSZ_Description'') ''SRA'')"
    by (simp add: fire_lookup_eq)
next
  show "first_contained r = Some f \<longleftrightarrow> err r = None \<and> (\<exists>rest. fc r = Some (f # rest))"
    by (auto simp: first_contained_def split: option.splits list.splits)
qed

theorem containment_first_witness:
  "first_contained (inside_provider (Contains FloodLayer sample_click)) = Some zone_near
   \<and> flood_lookup sample_lib inside_provider sample_click
       = ([Contains FloodLayer sample_click],
          Some (fmtFloodInside sample_lib (JStr ''1% Annual Chance Flood Hazard'')))
   \<and> first_contained (inside_provider (Contains FireHazardLRA sample_click)) = Some zone_far
   \<and> fire_lookup sample_lib inside_provider sample_click
       = ([Contains FireHazardLRA sample_click], fmtFireInside sample_lib (JStr ''Moderate'') ''LRA'')
   \<and> first_contained (sra_provider (Contains FireHazardLRA sample_click)) = None
   \<and> first_contained (sra_provider (Contains FireHazardSRA sample_click)) = Some zone_tie
   \<and> fire_lookup sample_lib sra_provider sample_click
       = ([Contains FireHazardLRA sample_click, Contains FireHazardSRA sample_click],
          fmtFireInside sample_lib (JStr ''Very High'') ''SRA'')"
proof -
  have h1: "first_contained (inside_provider (Contains FloodLayer sample_click)) = Some zone_near"
    and h2: "first_contained (inside_provider (Contains FireHazardLRA sample_click)) = Some zone_far"
    and h3: "first_contained (sra_provider (Contains FireHazardLRA sample_click)) = None"
    and h4: "first_contained (sra_provider (Contains FireHazardSRA sample_click)) = Some zone_tie"
    by (simp_all add: first_contained_def)
  have p: "property zone_near ''ESRI_SYMBOLOGY'' = JStr ''1% Annual Chance Flood Hazard''"
    "property zone_far ''FHSZ_Description'' = JStr ''Moderate''"
    "property zone_tie ''FHSZ_Description'' = JStr ''Very High''"
    by (simp_all add: property_def zone_near_def zone_far_def zone_tie_def)
  show ?thesis
    using h1 h2 h3 h4
      containment_first [of inside_provider sample_click zone_near sample_lib]
      containment_first [of inside_provider sample_click zone_far sample_lib]
      containment_first [of sra_provider sample_click zone_tie sample_lib]
    by (simp add: p)
qed

subsection \<open>Selection by edge distance\<close>

lemma getClosest_eq:
  "snd (getClosestFeatureByEdgeDistance L P layer e label field) =
     (let r = P (Nearby layer e NEARBY_METERS)
      in if err r = None then
           (case fc r of
              None \<Rightarrow> None
            | Some fs \<Rightarrow>
                (case closest_loop (edge_dist L e) fs of
                   (m, Some f) \<Rightarrow> Some (nearest_text L label (property f field) m)
                 | (m, None) \<Rightarrow> Some (no_nearby_text label)))
         else Some (no_nearby_text label))"
  by (auto simp: getClosestFeatureByEdgeDistance_def Let_def closest_loop_def
      split: option.splits prod.splits)

text \<open>
  C5. In both nearest searches the feature selected is the first one attaining the least
  edge distance, NaN distances being left out of the comparison (the across-layers search
  leaves out every non-finite distance). The outcome is \<^verbatim>\<open>No nearby zones found\<close> when the
  proximity query fails or returns no feature, and when no feature has a usable distance:
  for \<^verbatim>\<open>getClosestFeatureByEdgeDistance\<close> that is a distance that is NaN or Infinity, which
  for distances that are never negative means no finite distance.
\<close>

theorem nearest_search_selection:
  "(\<forall>m f. closest_loop (edge_dist L e) fs = (m, Some f) \<longrightarrow>
       m = edge_dist L e f \<and> first_minimum (edge_dist L e) not_NaN fs f)
   \<and> ((\<exists>m. closest_loop (edge_dist L e) fs = (m, None)) \<longleftrightarrow>
       (\<forall>g \<in> set fs. isNaN (edge_dist L e g) \<or> edge_dist L e g = PosInf))
   \<and> ((\<forall>g \<in> set fs. \<not> js_lt (edge_dist L e g) (Fin 0) \<and> \<not> isFinite (edge_dist L e g)) \<longrightarrow>
       (\<exists>m. closest_loop (edge_dist L e) fs = (m, None)))
   \<and> (\<forall>b. foldl (across_step L e label field) None fs = Some b \<longrightarrow>
       (\<exists>f. first_minimum (edge_dist L e) isFinite fs f
          \<and> b = (edge_dist L e f, nearest_text L label (property f field) (edge_dist L e f))))
   \<and> (foldl (across_step L e label field) None fs = None \<longleftrightarrow>
       (\<forall>g \<in> set fs. \<not> isFinite (edge_dist L e g)))
   \<and> (err (P (Nearby layer e NEARBY_METERS)) = None \<and> fc (P (Nearby layer e NEARBY_METERS)) = Some fs \<longrightarrow>
       snd (getClosestFeatureByEdgeDistance L P layer e label field) =
         (case closest_loop (edge_dist L e) fs of
            (m, Some f) \<Rightarrow> Some (nearest_text L label (property f field) m)
          | (m, None) \<Rightarrow> Some (no_nearby_text label)))
   \<and> (err (P (Nearby layer e NEARBY_METERS)) \<noteq> None \<or> fc (P (Nearby layer e NEARBY_METERS)) = Some [] \<longrightarrow>
       snd (getClosestFeatureByEdgeDistance L P layer e label field) = Some (no_nearby_text label))
   \<and> snd (nearestByEdgeDistanceAcross L P ls e label field) =
       (case foldl (across_step L e label field) None
               (concat (map (\<lambda>l. nearby_features (P (Nearby l e NEARBY_METERS))) ls)) of
          Some b \<Rightarrow> snd b
        | None \<Rightarrow> no_nearby_text label)
   \<and> no_nearby_text label = cross_mark @ '' <strong>'' @ label @ '':</strong> No nearby zones found''"
proof -
  let ?d = "edge_dist L e"
  have inv: "(case closest_loop ?d fs of
      (m, None) \<Rightarrow> m = PosInf \<and> (\<forall>g \<in> set fs. isNaN (?d g) \<or> ?d g = PosInf)
    | (m, Some f) \<Rightarrow> m = ?d f \<and> js_lt m PosInf \<and> first_minimum ?d not_NaN fs f)"
    by (rule closest_loop_inv)
  have c1: "\<forall>m f. closest_loop ?d fs = (m, Some f) \<longrightarrow> m = ?d f \<and> first_minimum ?d not_NaN fs f"
    using inv by auto
  have c2: "(\<exists>m. closest_loop ?d fs = (m, None)) \<longleftrightarrow> (\<forall>g \<in> set fs. isNaN (?d g) \<or> ?d g = PosInf)"
  proof
    assume "\<exists>m. closest_loop ?d fs = (m, None)"
    then show "\<forall>g \<in> set fs. isNaN (?d g) \<or> ?d g = PosInf" using inv by auto
  next
    assume all: "\<forall>g \<in> set fs. isNaN (?d g) \<or> ?d g = PosInf"
    obtain m b where mb: "closest_loop ?d fs = (m, b)" by (cases "closest_loop ?d fs")
    have "b = None"
    proof (cases b)
      case (Some f)
      then have "js_lt (?d f) PosInf" "first_minimum ?d not_NaN fs f" using inv mb by auto
      then have "f \<in> set fs" "js_lt (?d f) PosInf" "\<not> isNaN (?d f)"
        using first_minimum_exists_usable [of ?d not_NaN fs f] by (auto simp: not_NaN_def)
      then show ?thesis using all by (cases "?d f") auto
    qed simp
    then show "\<exists>m. closest_loop ?d fs = (m, None)" using mb by simp
  qed
  have c2b: "(\<forall>g \<in> set fs. \<not> js_lt (?d g) (Fin 0) \<and> \<not> isFinite (?d g)) \<longrightarrow>
       (\<exists>m. closest_loop ?d fs = (m, None))"
  proof
    assume nn: "\<forall>g \<in> set fs. \<not> js_lt (?d g) (Fin 0) \<and> \<not> isFinite (?d g)"
    have "isNaN (?d g) \<or> ?d g = PosInf" if "g \<in> set fs" for g
      using nn that by (cases "?d g") auto
    then show "\<exists>m. closest_loop ?d fs = (m, None)" using c2 by blast
  qed
  have ainv: "(case foldl (across_step L e label field) None fs of
      None \<Rightarrow> \<forall>g \<in> set fs. \<not> isFinite (?d g)
    | Some b \<Rightarrow> \<exists>f. first_minimum ?d isFinite fs f
          \<and> b = (?d f, nearest_text L label (property f field) (?d f)))"
    by (rule across_fold_inv)
  have c3: "\<forall>b. foldl (across_step L e label field) None fs = Some b \<longrightarrow>
       (\<exists>f. first_minimum ?d isFinite fs f
          \<and> b = (?d f, nearest_text L label (property f field) (?d f)))"
    using ainv by auto
  have c4: "foldl (across_step L e label field) None fs = None \<longleftrightarrow>
       (\<forall>g \<in> set fs. \<not> isFinite (?d g))"
  proof
    assume "foldl (across_step L e label field) None fs = None"
    then show "\<forall>g \<in> set fs. \<not> isFinite (?d g)" using ainv by simp
  next
    assume all: "\<forall>g \<in> set fs. \<not> isFinite (?d g)"
    show "foldl (across_step L e label field) None fs = None"
    proof (cases "foldl (across_step L e label field) None fs")
      case (Some b)
      then obtain f where "first_minimum ?d isFinite fs f" using ainv by auto
      then have "f \<in> set fs \<and> isFinite (?d f)" by (rule first_minimum_exists_usable)
      then show ?thesis using all by blast
    qed simp
  qed
  have c5: "err (P (Nearby layer e NEARBY_METERS)) = None \<and> fc (P (Nearby layer e NEARBY_METERS)) = Some fs \<longrightarrow>
       snd (getClosestFeatureByEdgeDistance L P layer e label field) =
         (case closest_loop ?d fs of
            (m, Some f) \<Rightarrow> Some (nearest_text L label (property f field) m)
          | (m, None) \<Rightarrow> Some (no_nearby_text label))"
    by (simp add: getClosest_eq Let_def)
  have c6: "err (P (Nearby layer e NEARBY_METERS)) \<noteq> None \<or> fc (P (Nearby layer e NEARBY_METERS)) = Some [] \<longrightarrow>
       snd (getClosestFeatureByEdgeDistance L P layer e label field) = Some (no_nearby_text label)"
    by (auto simp: getClosest_eq Let_def closest_loop_def)
  have c7: "snd (nearestByEdgeDistanceAcross L P ls e label field) =
       (case foldl (across_step L e label field) None
               (concat (map (\<lambda>l. nearby_features (P (Nearby l e NEARBY_METERS))) ls)) of
          Some b \<Rightarrow> snd b
        | None \<Rightarrow> no_nearby_text label)"
    by (simp add: nearestAcross_eq)
  have c8: "no_nearby_text label = cross_mark @ '' <strong>'' @ label @ '':</strong> No nearby zones found''"
    by (simp add: no_nearby_text_def)
  show ?thesis
    using c1 c2 c2b c3 c4 c5 c6 c7 c8 by blast
qed

lemma sample_closest:
  "closest_loop (edge_dist sample_lib sample_click) [zone_far, station, zone_near, zone_tie]
     = (Fin (1 / 2), Some zone_near)"
  by (simp add: closest_loop_def closest_step_def sample_dists)

theorem nearest_search_selection_witness:
  "closest_loop (edge_dist sample_lib sample_click) [zone_far, station, zone_near, zone_tie]
     = (Fin (1 / 2), Some zone_near)
   \<and> Fin (1 / 2) = edge_dist sample_lib sample_click zone_near
   \<and> first_minimum (edge_dist sample_lib sample_click) not_NaN
        [zone_far, station, zone_near, zone_tie] zone_near
   \<and> isNaN (edge_dist sample_lib sample_click station)
   \<and> (\<exists>m. closest_loop (edge_dist sample_lib sample_click) [station] = (m, None))
   \<and> \<not> isFinite (edge_dist sample_lib sample_click station)
   \<and> foldl (across_step sample_lib sample_click ''Fire Hazard Zone'' ''FHSZ_Description'') None [station]
       = None
   \<and> err (sample_provider (Nearby FloodLayer sample_click NEARBY_METERS)) = None
   \<and> fc (sample_provider (Nearby FloodLayer sample_click NEARBY_METERS)) = Some [zone_far, zone_near]
   \<and> snd (getClosestFeatureByEdgeDistance sample_lib sample_provider FloodLayer sample_click
            ''Flood Hazard Zone'' ''ESRI_SYMBOLOGY'')
       = (case closest_loop (edge_dist sample_lib sample_click) [zone_far, zone_near] of
            (m, Some f) \<Rightarrow> Some (nearest_text sample_lib ''Flood Hazard Zone'' (property f ''ESRI_SYMBOLOGY'') m)
          | (m, None) \<Rightarrow> Some (no_nearby_text ''Flood Hazard Zone''))
   \<and> err (sample_provider (Nearby DrinkLayer sample_click NEARBY_METERS)) \<noteq> None
   \<and> snd (getClosestFeatureByEdgeDistance sample_lib sample_provider DrinkLayer sample_click
            ''Zone'' ''NAME'')
       = Some (no_nearby_text ''Zone'')"
proof -
  note a = nearest_search_selection [of sample_lib sample_click
      "[zone_far, station, zone_near, zone_tie]" "''Fire Hazard Zone''" "''FHSZ_Description''"
      sample_provider FireHazardLRA "[]"]
  note b = nearest_search_selection [of sample_lib sample_click
      "[station]" "''Fire Hazard Zone''" "''FHSZ_Description''" sample_provider FireHazardLRA "[]"]
  note c = nearest_search_selection [of sample_lib sample_click
      "[zone_far, zone_near]" "''Flood Hazard Zone''" "''ESRI_SYMBOLOGY''" sample_provider FloodLayer "[]"]
  note d = nearest_search_selection [of sample_lib sample_click
      "[]" "''Zone''" "''NAME''" sample_provider DrinkLayer "[]"]
  have h1: "\<forall>g \<in> set [station]. isNaN (edge_dist sample_lib sample_click g)
          \<or> edge_dist sample_lib sample_click g = PosInf"
    and h2: "\<forall>g \<in> set [station]. \<not> isFinite (edge_dist sample_lib sample_click g)"
    by (simp_all add: sample_dists)
  have h3: "err (sample_provider (Nearby FloodLayer sample_click NEARBY_METERS)) = None
      \<and> fc (sample_provider (Nearby FloodLayer sample_click NEARBY_METERS)) = Some [zone_far, zone_near]"
    and h4: "err (sample_provider (Nearby DrinkLayer sample_click NEARBY_METERS)) \<noteq> None"
    by simp_all
  have w1: "Fin (1 / 2) = edge_dist sample_lib sample_click zone_near
      \<and> first_minimum (edge_dist sample_lib sample_click) not_NaN
        [zone_far, station, zone_near, zone_tie] zone_near"
    using a sample_closest by blast
  have w2: "\<exists>m. closest_loop (edge_dist sample_lib sample_click) [station] = (m, None)"
    using b h1 by blast
  have w3: "foldl (across_step sample_lib sample_click ''Fire Hazard Zone'' ''FHSZ_Description'') None [station]
       = None"
    using b h2 by blast
  have w4: "snd (getClosestFeatureByEdgeDistance sample_lib sample_provider FloodLayer sample_click
            ''Flood Hazard Zone'' ''ESRI_SYMBOLOGY'')
       = (case closest_loop (edge_dist sample_lib sample_click) [zone_far, zone_near] of
            (m, Some f) \<Rightarrow> Some (nearest_text sample_lib ''Flood Hazard Zone'' (property f ''ESRI_SYMBOLOGY'') m)
          | (m, None) \<Rightarrow> Some (no_nearby_text ''Flood Hazard Zone''))"
    using c h3 by blast
  have w5: "snd (getClosestFeatureByEdgeDistance sample_lib sample_provider DrinkLayer sample_click
            ''Zone'' ''NAME'') = Some (no_nearby_text ''Zone'')"
    using d h4 by blast
  have n: "isNaN (edge_dist sample_lib sample_click station)"
    "\<not> isFinite (edge_dist sample_lib sample_click station)"
    by (simp_all add: sample_dists)
  show ?thesis
    using sample_closest w1 n w2 w3 h3 w4 h4 w5 by blast
qed

subsection \<open>toFixed and parseFloat\<close>

lemma small_cases: "d < (10::nat) \<Longrightarrow> d = 0 \<or> d = 1 \<or> d = 2 \<or> d = 3 \<or> d = 4 \<or> d = 5 \<or> d = 6 \<or> d = 7 \<or> d = 8 \<or> d = 9"
  by arith

lemma digit_char_facts:
  assumes "d < 10"
  shows "is_digit (digit_char d)" "digit_val (digit_char d) = d"
  using small_cases [OF assms]
  by (auto simp: digit_char_def is_digit_def digit_val_def)

lemma digits_all_digits: "\<forall>c \<in> set (digits n). is_digit c"
proof (induction n rule: digits.induct)
  case (1 n)
  show ?case
  proof (cases "n < 10")
    case True
    then show ?thesis by (subst digits.simps) (simp add: digit_char_facts)
  next
    case False
    then show ?thesis using 1 by (subst digits.simps) (simp add: digit_char_facts)
  qed
qed

lemma digits_not_empty: "digits n \<noteq> []"
  by (subst digits.simps) simp

lemma nat_of_digits_append:
  "nat_of_digits acc (a @ b) = nat_of_digits (nat_of_digits acc a) b"
  by (induction a arbitrary: acc) simp_all

lemma nat_of_digits_acc:
  "nat_of_digits acc b = acc * 10 ^ length b + nat_of_digits 0 b"
proof (induction b arbitrary: acc)
  case Nil
  then show ?case by simp
next
  case (Cons c cs)
  have "nat_of_digits acc (c # cs) = (acc * 10 + digit_val c) * 10 ^ length cs + nat_of_digits 0 cs"
    using Cons.IH [of "acc * 10 + digit_val c"] by simp
  also have "\<dots> = acc * 10 ^ length (c # cs) + (digit_val c * 10 ^ length cs + nat_of_digits 0 cs)"
    by (simp add: algebra_simps)
  also have "digit_val c * 10 ^ length cs + nat_of_digits 0 cs = nat_of_digits 0 (c # cs)"
    using Cons.IH [of "digit_val c"] by simp
  finally show ?case .
qed

lemma nat_of_digits_digits: "nat_of_digits 0 (digits n) = n"
proof (induction n rule: digits.induct)
  case (1 n)
  show ?case
  proof (cases "n < 10")
    case True
    then show ?thesis by (subst digits.simps) (simp add: digit_char_facts)
  next
    case False
    then have "nat_of_digits 0 (digits n) = nat_of_digits 0 (digits (n div 10)) * 10 + n mod 10"
      by (subst digits.simps) (simp add: nat_of_digits_append digit_char_facts)
    then show ?thesis using 1 False by simp
  qed
qed

lemma nat_of_digits_zeros: "nat_of_digits 0 (replicate k CHR ''0'' @ m) = nat_of_digits 0 m"
  by (induction k) (simp_all add: digit_val_def)

lemma unsigned_decimal_fixed:
  assumes "hi \<noteq> []" "\<forall>c \<in> set hi. is_digit c" "\<forall>c \<in> set lo. is_digit c"
  shows "unsigned_decimal (hi @ ''.'' @ lo)
      = Fin (real (nat_of_digits 0 hi) + real (nat_of_digits 0 lo) / 10 ^ length lo)"
proof -
  obtain c rest where hi: "hi = c # rest" using assms(1) by (cases hi) auto
  then have c: "is_digit c" using assms(2) by simp
  have notinf: "take 8 (hi @ ''.'' @ lo) \<noteq> ''Infinity''"
    using c by (auto simp: hi is_digit_def)
  have nd: "\<not> is_digit CHR ''.''" by (simp add: is_digit_def)
  have tw: "takeWhile is_digit (hi @ ''.'' @ lo) = hi"
    using assms(2) nd by (simp add: takeWhile_append2)
  have dw: "dropWhile is_digit (hi @ ''.'' @ lo) = ''.'' @ lo"
    using assms(2) nd by (simp add: dropWhile_append2)
  have tw2: "takeWhile is_digit lo = lo" using assms(3) by (simp add: takeWhile_eq_all_conv)
  have dw2: "dropWhile is_digit lo = []" using assms(3) by simp
  show ?thesis
    unfolding unsigned_decimal_def Let_def tw dw
    using notinf assms(1) by (simp add: tw2 dw2 exponent_part_def)
qed

lemma toFixed_split:
  assumes "0 < f"
  shows "\<exists>hi lo. toFixed f x = (if x < 0 then ''-'' else []) @ hi @ ''.'' @ lo
      \<and> hi \<noteq> [] \<and> (\<forall>c \<in> set hi. is_digit c) \<and> (\<forall>c \<in> set lo. is_digit c) \<and> length lo = f
      \<and> nat_of_digits 0 (hi @ lo) = nat \<lfloor>\<bar>x\<bar> * 10 ^ f + 1 / 2\<rfloor>"
proof -
  define n where "n = nat \<lfloor>\<bar>x\<bar> * 10 ^ f + 1 / 2\<rfloor>"
  define m where "m = digits n"
  define mz where "mz = (if length m \<le> f then replicate (f + 1 - length m) CHR ''0'' @ m else m)"
  define hi where "hi = take (length mz - f) mz"
  define lo where "lo = drop (length mz - f) mz"
  have m_ne: "m \<noteq> []" by (simp add: m_def digits_not_empty)
  have len: "f < length mz"
  proof (cases "length m \<le> f")
    case True
    then show ?thesis by (simp add: mz_def)
  next
    case False
    then show ?thesis by (simp add: mz_def)
  qed
  have m_dig: "\<forall>c \<in> set m. is_digit c" by (simp add: m_def digits_all_digits)
  have z_dig: "is_digit CHR ''0''" by (simp add: is_digit_def)
  have dig: "\<forall>c \<in> set mz. is_digit c"
    using m_dig z_dig by (auto simp: mz_def)
  have val: "nat_of_digits 0 mz = n"
    by (simp add: mz_def m_def nat_of_digits_zeros nat_of_digits_digits)
  have 1: "toFixed f x = (if x < 0 then ''-'' else []) @ hi @ ''.'' @ lo"
    using assms unfolding toFixed_def Let_def hi_def lo_def mz_def m_def n_def by simp
  have 2: "hi \<noteq> []" using len by (auto simp: hi_def)
  have 3: "\<forall>c \<in> set hi. is_digit c" using dig unfolding hi_def by (meson in_set_takeD)
  have 4: "\<forall>c \<in> set lo. is_digit c" using dig unfolding lo_def by (meson in_set_dropD)
  have 5: "length lo = f" using len by (simp add: lo_def)
  have "hi @ lo = mz" by (simp add: hi_def lo_def)
  then have 6: "nat_of_digits 0 (hi @ lo) = nat \<lfloor>\<bar>x\<bar> * 10 ^ f + 1 / 2\<rfloor>"
    using val by (simp add: n_def)
  show ?thesis
    using 1 2 3 4 5 6 by (intro exI [of _ hi] exI [of _ lo]) simp
qed

lemma parseFloat_toFixed:
  assumes "0 < f"
  shows "parseFloat_str (toFixed f x) =
     Fin ((if x < 0 then - 1 else 1) * real (nat \<lfloor>\<bar>x\<bar> * 10 ^ f + 1 / 2\<rfloor>) / 10 ^ f)"
proof -
  obtain hi lo where s: "toFixed f x = (if x < 0 then ''-'' else []) @ hi @ ''.'' @ lo"
    and hi: "hi \<noteq> []" "\<forall>c \<in> set hi. is_digit c" and lo: "\<forall>c \<in> set lo. is_digit c" "length lo = f"
    and v: "nat_of_digits 0 (hi @ lo) = nat \<lfloor>\<bar>x\<bar> * 10 ^ f + 1 / 2\<rfloor>"
    using toFixed_split [OF assms, of x] by blast
  obtain c rest where hic: "hi = c # rest" using hi(1) by (cases hi) auto
  then have c: "is_digit c" using hi(2) by simp
  then have cn: "\<not> is_space c" "c \<noteq> CHR ''-''" "c \<noteq> CHR ''+''"
    by (auto simp: is_digit_def is_space_def)
  have u: "unsigned_decimal (hi @ ''.'' @ lo)
      = Fin (real (nat_of_digits 0 hi) + real (nat_of_digits 0 lo) / 10 ^ length lo)"
    by (rule unsigned_decimal_fixed [OF hi lo(1)])
  have "nat_of_digits 0 (hi @ lo) = nat_of_digits 0 hi * 10 ^ f + nat_of_digits 0 lo"
    using nat_of_digits_acc [of "nat_of_digits 0 hi" lo] by (simp add: nat_of_digits_append lo(2))
  then have "real (nat \<lfloor>\<bar>x\<bar> * 10 ^ f + 1 / 2\<rfloor>) = real (nat_of_digits 0 hi) * 10 ^ f + real (nat_of_digits 0 lo)"
    using v by (metis of_nat_add of_nat_mult of_nat_numeral of_nat_power)
  then have val: "real (nat_of_digits 0 hi) + real (nat_of_digits 0 lo) / 10 ^ length lo
      = real (nat \<lfloor>\<bar>x\<bar> * 10 ^ f + 1 / 2\<rfloor>) / 10 ^ f"
    by (simp add: lo(2) field_simps)
  show ?thesis
  proof (cases "x < 0")
    case True
    then have "parseFloat_str (toFixed f x) = js_neg (unsigned_decimal (hi @ ''.'' @ lo))"
      by (simp add: s parseFloat_str_def is_space_def)
    then show ?thesis using True u val by simp
  next
    case False
    then have "parseFloat_str (toFixed f x) = unsigned_decimal (hi @ ''.'' @ lo)"
      using cn by (simp add: s parseFloat_str_def hic)
    then show ?thesis using False u val by simp
  qed
qed

subsection \<open>The distance helper\<close>






text \<open>
  The same angle in the haversine form: with \<open>a\<close> the haversine term of the two positions,
  the cosine of the angle is \<open>1 - 2 * a\<close>. Along a meridian the distance is the difference of
  the latitudes, at about 69.09 miles to the degree.
\<close>

lemma central_cosine_haversine:
  "central_cosine p q =
     1 - 2 * ((sin (radians (snd q - snd p) / 2))\<^sup>2
              + cos (radians (snd p)) * cos (radians (snd q)) * (sin (radians (fst q - fst p) / 2))\<^sup>2)"
proof -
  define a b l where "a = radians (snd p)" and "b = radians (snd q)" and "l = radians (fst q - fst p)"
  have half: "2 * (sin (x / 2))\<^sup>2 = 1 - cos x" for x :: real
    using cos_double_sin [of "x / 2"] by simp
  have d: "radians (snd q - snd p) = b - a"
    by (simp add: a_def b_def radians_def diff_divide_distrib left_diff_distrib)
  have "1 - 2 * ((sin ((b - a) / 2))\<^sup>2 + cos a * cos b * (sin (l / 2))\<^sup>2)
      = 1 - 2 * (sin ((b - a) / 2))\<^sup>2 - cos a * cos b * (2 * (sin (l / 2))\<^sup>2)"
    by (simp add: algebra_simps)
  also have "\<dots> = cos (b - a) - cos a * cos b * (1 - cos l)"
    using half [of "b - a"] half [of l] by simp
  also have "\<dots> = sin a * sin b + cos a * cos b * cos l"
    by (simp add: cos_diff algebra_simps)
  finally show ?thesis
    by (simp add: central_cosine_def d a_def b_def l_def)
qed










subsection \<open>Provider failures\<close>























subsection \<open>The EV charger overlay\<close>

lemma fetchInView_inv: "ev_inv st \<Longrightarrow> ev_inv (fetchInView now st)"
  by (auto simp: ev_inv_def fetchInView_def)

lemma fetchDebounced_fields:
  "isLoading (fetchDebounced now st) = isLoading st"
  "in_flight (fetchDebounced now st) = in_flight st"
  "requests (fetchDebounced now st) = requests st"
  "enabled (fetchDebounced now st) = enabled st"
  "view (fetchDebounced now st) = view st"
  by (simp_all add: fetchDebounced_def setTimeout_def clearTimeout_def Let_def split: option.split)

lemma ev_handle_inv: "ev_inv st \<Longrightarrow> ev_inv (ev_handle now ev st)"
proof (cases ev)
  case (Moveend b)
  assume "ev_inv st"
  then show ?thesis using Moveend by (simp add: ev_inv_def fetchDebounced_fields)
next
  case (OverlayAdd this)
  assume "ev_inv st"
  then have "ev_inv (st\<lparr>enabled := True, attribution := True\<rparr>)" by (simp add: ev_inv_def)
  then show ?thesis using OverlayAdd \<open>ev_inv st\<close> by (simp add: fetchInView_inv)
next
  case (FetchResolved d)
  assume "ev_inv st"
  then show ?thesis using FetchResolved by (cases d) (auto simp: ev_inv_def)
qed (auto simp: ev_inv_def)

lemma fire_timer_inv: "ev_inv st \<Longrightarrow> ev_inv (fire_timer st p)"
proof -
  assume "ev_inv st"
  then have "ev_inv (st\<lparr>timers := filter (\<lambda>q. fst q \<noteq> fst p) (timers st)\<rparr>)"
    by (simp add: ev_inv_def)
  then show ?thesis unfolding fire_timer_def by (rule fetchInView_inv)
qed

lemma foldl_fire_timer_inv: "ev_inv st \<Longrightarrow> ev_inv (foldl fire_timer st ps)"
  by (induction ps arbitrary: st) (simp_all add: fire_timer_inv)

lemma advance_inv: "ev_inv st \<Longrightarrow> ev_inv (advance now st)"
  by (simp add: advance_def foldl_fire_timer_inv)

lemma run_events_inv: "ev_inv st \<Longrightarrow> ev_inv (run_events evs st)"
proof (induction evs arbitrary: st)
  case Nil
  then show ?case by simp
next
  case (Cons p evs)
  obtain now ev where p: "p = (now, ev)" by (cases p)
  show ?case using Cons by (simp add: p advance_inv ev_handle_inv)
qed

lemma ev_init_inv: "ev_inv (ev_init b)"
  by (simp add: ev_inv_def ev_init_def)

lemma enabled_state_eq:
  "enabled_state = (ev_init (view_at (-120)))\<lparr>enabled := True\<rparr>"
  by (simp add: enabled_state_def advance_def ev_init_def)

lemma loading_state_eq:
  "loading_state = (ev_init (view_at (-120)))
     \<lparr>enabled := True, isLoading := True, requests := [(0, view_at (-120))], in_flight := 1,
      attribution := True\<rparr>"
  by (simp add: loading_state_def advance_def ev_init_def fetchInView_def)

text \<open>
  C9. However the events of the overlay follow one another, at most one fetch is in flight,
  and the busy flag is set exactly while one is. \<^verbatim>\<open>fetchInView\<close> changes nothing while
  the flag is set; when it does fetch, the flag is set in the state that holds the request;
  both ends of the fetch promise reset the flag; and neither sends a request nor sets a timer,
  so a failed fetch is not retried.
\<close>

theorem one_fetch_in_flight:
  "in_flight (run_events evs (ev_init b)) \<le> 1
   \<and> (isLoading (run_events evs (ev_init b)) \<longleftrightarrow> in_flight (run_events evs (ev_init b)) = 1)
   \<and> (isLoading st \<longrightarrow> fetchInView now st = st)
   \<and> (enabled st \<and> \<not> isLoading st \<longrightarrow>
        isLoading (fetchInView now st)
        \<and> requests (fetchInView now st) = requests st @ [(now, view st)]
        \<and> in_flight (fetchInView now st) = in_flight st + 1)
   \<and> (0 < in_flight st \<longrightarrow>
        \<not> isLoading (ev_handle now (FetchResolved d) st)
        \<and> \<not> isLoading (ev_handle now FetchRejected st)
        \<and> in_flight (ev_handle now (FetchResolved d) st) = in_flight st - 1
        \<and> in_flight (ev_handle now FetchRejected st) = in_flight st - 1)
   \<and> requests (ev_handle now FetchRejected st) = requests st
   \<and> timers (ev_handle now FetchRejected st) = timers st
   \<and> requests (ev_handle now (FetchResolved d) st) = requests st
   \<and> timers (ev_handle now (FetchResolved d) st) = timers st"
proof -
  have "ev_inv (run_events evs (ev_init b))"
    by (rule run_events_inv [OF ev_init_inv])
  then have a: "in_flight (run_events evs (ev_init b)) \<le> 1
      \<and> (isLoading (run_events evs (ev_init b)) \<longleftrightarrow> in_flight (run_events evs (ev_init b)) = 1)"
    by (simp add: ev_inv_def)
  have b: "isLoading st \<longrightarrow> fetchInView now st = st"
    by (simp add: fetchInView_def)
  have c: "enabled st \<and> \<not> isLoading st \<longrightarrow>
        isLoading (fetchInView now st)
        \<and> requests (fetchInView now st) = requests st @ [(now, view st)]
        \<and> in_flight (fetchInView now st) = in_flight st + 1"
    by (simp add: fetchInView_def)
  have d: "0 < in_flight st \<longrightarrow>
        \<not> isLoading (ev_handle now (FetchResolved d) st)
        \<and> \<not> isLoading (ev_handle now FetchRejected st)
        \<and> in_flight (ev_handle now (FetchResolved d) st) = in_flight st - 1
        \<and> in_flight (ev_handle now FetchRejected st) = in_flight st - 1"
    by (cases d) auto
  have e: "requests (ev_handle now FetchRejected st) = requests st
      \<and> timers (ev_handle now FetchRejected st) = timers st
      \<and> requests (ev_handle now (FetchResolved d) st) = requests st
      \<and> timers (ev_handle now (FetchResolved d) st) = timers st"
    by (cases d) auto
  show ?thesis using a b c d e by blast
qed

theorem one_fetch_in_flight_witness:
  "isLoading loading_state
   \<and> fetchInView 5 loading_state = loading_state
   \<and> 0 < in_flight loading_state
   \<and> \<not> isLoading (ev_handle 9 FetchRejected loading_state)
   \<and> \<not> isLoading (ev_handle 9 (FetchResolved NotAnArray) loading_state)
   \<and> requests (ev_handle 9 FetchRejected loading_state) = [(0, view_at (-120))]
   \<and> enabled enabled_state \<and> \<not> isLoading enabled_state
   \<and> isLoading (fetchInView 7 enabled_state)
   \<and> requests (fetchInView 7 enabled_state) = [(7, view_at (-120))]
   \<and> in_flight (run_events [(0, OverlayAdd True), (10, Moveend (view_at (-121))),
         (610, ZoomToggle True), (700, FetchRejected), (800, Moveend (view_at (-122))), (2000, ZoomToggle True)]
         (ev_init (view_at (-120)))) \<le> 1"
proof -
  have l: "isLoading loading_state" "0 < in_flight loading_state"
    "requests loading_state = [(0, view_at (-120))]"
    by (simp_all add: loading_state_eq)
  have e: "enabled enabled_state \<and> \<not> isLoading enabled_state"
    "requests enabled_state = []" "view enabled_state = view_at (-120)"
    by (simp_all add: enabled_state_eq ev_init_def)
  note a = one_fetch_in_flight [where evs = "[]" and st = loading_state and now = 5 and d = NotAnArray]
  note b = one_fetch_in_flight [where evs = "[]" and st = loading_state and now = 9 and d = NotAnArray]
  note c = one_fetch_in_flight [of "[(0, OverlayAdd True), (10, Moveend (view_at (-121))),
         (610, ZoomToggle True), (700, FetchRejected), (800, Moveend (view_at (-122))), (2000, ZoomToggle True)]"
         "view_at (-120)" enabled_state 7 NotAnArray]
  show ?thesis
    using l e a b c by simp
qed

lemma advance_not_due:
  assumes "timers st = [(i, due)]" "now < due"
  shows "advance now st = st"
  using assms by (simp add: advance_def)

lemma advance_no_timers: "timers st = [] \<Longrightarrow> advance now st = st"
  by (simp add: advance_def)

lemma fetchDebounced_timers:
  assumes "timers st = [] \<or> (\<exists>i due. timers st = [(i, due)] \<and> timer st = Some i)"
  shows "timers (fetchDebounced now st) = [(next_timer st, now + EV_FETCH_DEBOUNCE_MS)]
       \<and> timer (fetchDebounced now st) = Some (next_timer st)"
  using assms
  by (auto simp: fetchDebounced_def setTimeout_def clearTimeout_def Let_def split: option.split)

lemma moveend_step:
  assumes "timers st = [] \<or> (\<exists>i due. timers st = [(i, due)] \<and> timer st = Some i \<and> now < due)"
  shows "timers (ev_handle now (Moveend b) (advance now st)) = [(next_timer st, now + EV_FETCH_DEBOUNCE_MS)]
       \<and> timer (ev_handle now (Moveend b) (advance now st)) = Some (next_timer st)
       \<and> requests (ev_handle now (Moveend b) (advance now st)) = requests st
       \<and> enabled (ev_handle now (Moveend b) (advance now st)) = enabled st
       \<and> isLoading (ev_handle now (Moveend b) (advance now st)) = isLoading st
       \<and> view (ev_handle now (Moveend b) (advance now st)) = b"
proof -
  have adv: "advance now st = st"
    using assms advance_not_due advance_no_timers by blast
  have pre: "timers (st\<lparr>view := b\<rparr>) = []
      \<or> (\<exists>i due. timers (st\<lparr>view := b\<rparr>) = [(i, due)] \<and> timer (st\<lparr>view := b\<rparr>) = Some i)"
    using assms by auto
  show ?thesis
    using fetchDebounced_timers [OF pre, of now]
    by (simp add: adv fetchDebounced_fields)
qed

lemma burst_run:
  assumes "timers st = [(i, a + EV_FETCH_DEBOUNCE_MS)]" "timer st = Some i"
    and "burst EV_FETCH_DEBOUNCE_MS (a # map fst rest)"
  shows "(\<exists>j. timers (run_events (moveends rest) st)
              = [(j, last (a # map fst rest) + EV_FETCH_DEBOUNCE_MS)])
       \<and> requests (run_events (moveends rest) st) = requests st
       \<and> enabled (run_events (moveends rest) st) = enabled st
       \<and> isLoading (run_events (moveends rest) st) = isLoading st
       \<and> view (run_events (moveends rest) st) = last (view st # map snd rest)"
  using assms
proof (induction rest arbitrary: st i a)
  case Nil
  then show ?case by (simp add: moveends_def)
next
  case (Cons p rest)
  obtain b bb where p: "p = (b, bb)" by (cases p)
  let ?st1 = "ev_handle b (Moveend bb) (advance b st)"
  have ab: "a \<le> b" "b < a + EV_FETCH_DEBOUNCE_MS" "burst EV_FETCH_DEBOUNCE_MS (b # map fst rest)"
    using Cons.prems(3) by (simp_all add: p)
  have pre: "timers st = [] \<or> (\<exists>i due. timers st = [(i, due)] \<and> timer st = Some i \<and> b < due)"
    using Cons.prems(1,2) ab(2) by simp
  note step = moveend_step [OF pre, of bb]
  have ih: "(\<exists>j. timers (run_events (moveends rest) ?st1)
              = [(j, last (b # map fst rest) + EV_FETCH_DEBOUNCE_MS)])
       \<and> requests (run_events (moveends rest) ?st1) = requests ?st1
       \<and> enabled (run_events (moveends rest) ?st1) = enabled ?st1
       \<and> isLoading (run_events (moveends rest) ?st1) = isLoading ?st1
       \<and> view (run_events (moveends rest) ?st1) = last (view ?st1 # map snd rest)"
    using step ab(3) by (intro Cons.IH [of ?st1 "next_timer st" b]) simp_all
  have run: "run_events (moveends (p # rest)) st = run_events (moveends rest) ?st1"
    by (simp add: moveends_def p)
  show ?case
    unfolding run using ih step by (simp add: p)
qed

text \<open>
  C8. Take a burst of map moves, each less than 600 ms after the one before, starting with no
  timeout pending. No fetch is sent during the burst, one timeout is pending after it, due
  600 ms after the last move (every move has replaced the pending timeout by a new one), and
  from then on \<^verbatim>\<open>fetchInView\<close> has run once: with the overlay shown and no fetch
  loading, exactly one request is sent, at that time and for the last view; none before.
\<close>

theorem debounce_burst:
  assumes "timers st0 = []" and "burst EV_FETCH_DEBOUNCE_MS (map fst evs)"
  shows "requests (run_events (moveends evs) st0) = requests st0
       \<and> (\<exists>j. timers (run_events (moveends evs) st0)
               = [(j, fst (last evs) + EV_FETCH_DEBOUNCE_MS)])
       \<and> requests (advance T (run_events (moveends evs) st0)) =
           requests st0 @
             (if fst (last evs) + EV_FETCH_DEBOUNCE_MS \<le> T \<and> enabled st0 \<and> \<not> isLoading st0
              then [(fst (last evs) + EV_FETCH_DEBOUNCE_MS, snd (last evs))]
              else [])"
proof -
  obtain p rest where evs: "evs = p # rest" using assms(2) by (cases evs) auto
  obtain a ba where p: "p = (a, ba)" by (cases p)
  let ?st1 = "ev_handle a (Moveend ba) (advance a st0)"
  let ?st = "run_events (moveends evs) st0"
  have pre: "timers st0 = [] \<or> (\<exists>i due. timers st0 = [(i, due)] \<and> timer st0 = Some i \<and> a < due)"
    using assms(1) by simp
  note step = moveend_step [OF pre, of ba]
  have b: "burst EV_FETCH_DEBOUNCE_MS (a # map fst rest)" using assms(2) by (simp add: evs p)
  have run: "?st = run_events (moveends rest) ?st1" by (simp add: moveends_def evs p)
  have r: "(\<exists>j. timers ?st = [(j, last (a # map fst rest) + EV_FETCH_DEBOUNCE_MS)])
       \<and> requests ?st = requests ?st1
       \<and> enabled ?st = enabled ?st1
       \<and> isLoading ?st = isLoading ?st1
       \<and> view ?st = last (view ?st1 # map snd rest)"
    unfolding run using step b by (intro burst_run [of ?st1 "next_timer st0" a]) simp_all
  have lastt: "last (a # map fst rest) = fst (last evs)"
    by (simp add: evs p last_map)
  have vw: "view ?st1 = ba" using step by simp
  have "last (ba # map snd rest) = snd (last evs)"
    by (simp add: evs p last_map)
  then have lastb: "view ?st = snd (last evs)"
    using r vw by (simp only:)
  obtain j where j: "timers ?st = [(j, fst (last evs) + EV_FETCH_DEBOUNCE_MS)]"
    using r lastt by auto
  have c1: "requests ?st = requests st0" using r step by simp
  have facts: "enabled ?st = enabled st0" "isLoading ?st = isLoading st0"
    using r step by simp_all
  have c3: "requests (advance T ?st) =
           requests st0 @
             (if fst (last evs) + EV_FETCH_DEBOUNCE_MS \<le> T \<and> enabled st0 \<and> \<not> isLoading st0
              then [(fst (last evs) + EV_FETCH_DEBOUNCE_MS, snd (last evs))]
              else [])"
    using j c1 facts lastb by (simp add: advance_def fire_timer_def fetchInView_def)
  show ?thesis using c1 j c3 by blast
qed


theorem debounce_burst_witness:
  "timers enabled_state = []
   \<and> burst EV_FETCH_DEBOUNCE_MS (map fst [(1000, view_at (-121)), (1300, view_at (-122)), (1850, view_at (-123))])
   \<and> requests (run_events (moveends [(1000, view_at (-121)), (1300, view_at (-122)), (1850, view_at (-123))])
        enabled_state) = []
   \<and> requests (advance 2449 (run_events
        (moveends [(1000, view_at (-121)), (1300, view_at (-122)), (1850, view_at (-123))]) enabled_state)) = []
   \<and> requests (advance 2450 (run_events
        (moveends [(1000, view_at (-121)), (1300, view_at (-122)), (1850, view_at (-123))]) enabled_state))
       = [(2450, view_at (-123))]"
proof -
  have h1: "timers enabled_state = []"
    by (simp add: enabled_state_eq ev_init_def)
  have h2: "burst EV_FETCH_DEBOUNCE_MS
      (map fst [(1000, view_at (-121)), (1300, view_at (-122)), (1850, view_at (-123))])"
    by (simp add: EV_FETCH_DEBOUNCE_MS_def)
  have s: "requests enabled_state = []" "enabled enabled_state" "\<not> isLoading enabled_state"
    by (simp_all add: enabled_state_eq ev_init_def)
  show ?thesis
    using h1 h2 debounce_burst [OF h1 h2, of 2449] debounce_burst [OF h1 h2, of 2450]
    by (simp add: s EV_FETCH_DEBOUNCE_MS_def)
qed

subsection \<open>The shaking source\<close>

text \<open>
  C10. \<^verbatim>\<open>identifyMMIAt\<close> never rejects: it always resolves, and it resolves to
  \<^verbatim>\<open>null\<close> on a provider error and whenever no finite value can be read from the response.
  The shaking slot of the click then keeps its default text, and whatever the response, the
  slot never shows the error text of the shaking task's \<^verbatim>\<open>catch\<close> clause.
  \<^verbatim>\<open>identifyLandslideAt\<close>, in contrast, rejects on a provider error, and the landslide
  slot shows its error text.
\<close>

theorem identifyMMIAt_never_rejects:
  "(\<exists>v. identifyMMIAt L cb = Resolved v)
   \<and> (mmi_err cb \<noteq> None \<longrightarrow> identifyMMIAt L cb = Resolved None)
   \<and> ((\<forall>x. mmi_val L cb \<noteq> Some (Fin x)) \<longrightarrow> identifyMMIAt L cb = Resolved None)
   \<and> (identifyMMIAt L cb = Resolved None \<longrightarrow>
        shaking (results (shaking_task L cb (click_start h e)))
          = cross_mark @ '' Shaking Potential: No data.'')
   \<and> shaking (results (shaking_task L cb (click_start h e))) \<noteq> shaking_error_text
   \<and> (identify_error lcb = Some er \<longrightarrow>
        identifyLandslideAt lcb = Rejected er
        \<and> landslide (results (landslide_task lcb (click_start h e))) = landslide_error_text)"
proof (intro conjI impI)
  show "\<exists>v. identifyMMIAt L cb = Resolved v"
    by (simp add: identifyMMIAt_def split: option.split jsnum.split)
next
  assume "mmi_err cb \<noteq> None"
  then show "identifyMMIAt L cb = Resolved None"
    by (auto simp: identifyMMIAt_def)
next
  assume "\<forall>x. mmi_val L cb \<noteq> Some (Fin x)"
  then show "identifyMMIAt L cb = Resolved None"
    by (simp add: identifyMMIAt_def split: option.split jsnum.split)
next
  assume "identifyMMIAt L cb = Resolved None"
  then show "shaking (results (shaking_task L cb (click_start h e)))
      = cross_mark @ '' Shaking Potential: No data.''"
    by (simp add: shaking_task_def checkDone_results click_start_def default_results_def)
next
  show "shaking (results (shaking_task L cb (click_start h e))) \<noteq> shaking_error_text"
  proof (cases "identifyMMIAt L cb")
    case (Resolved v)
    then show ?thesis
      by (cases v)
         (simp_all add: shaking_task_def checkDone_results click_start_def default_results_def
            set_shaking_def fmtShaking_not_error,
          simp add: shaking_error_text_def cross_mark_def square_mark_def)
  next
    case (Rejected r)
    then show ?thesis
      by (simp add: identifyMMIAt_def split: option.splits jsnum.splits)
  qed
next
  assume "identify_error lcb = Some er"
  then show "identifyLandslideAt lcb = Rejected er"
    by (simp add: identifyLandslideAt_def)
next
  assume "identify_error lcb = Some er"
  then show "landslide (results (landslide_task lcb (click_start h e))) = landslide_error_text"
    by (simp add: identifyLandslideAt_def landslide_task_def checkDone_results set_landslide_def)
qed

theorem identifyMMIAt_never_rejects_witness:
  "mmi_err failed_mmi \<noteq> None
   \<and> (\<forall>x. mmi_val sample_lib failed_mmi \<noteq> Some (Fin x))
   \<and> identifyMMIAt sample_lib failed_mmi = Resolved None
   \<and> shaking (results (shaking_task sample_lib failed_mmi (click_start True sample_click)))
       = cross_mark @ '' Shaking Potential: No data.''
   \<and> identify_error failed_landslide = Some ''timeout''
   \<and> identifyLandslideAt failed_landslide = Rejected ''timeout''
   \<and> landslide (results (landslide_task failed_landslide (click_start True sample_click)))
       = landslide_error_text"
  using identifyMMIAt_never_rejects
    [of sample_lib failed_mmi True sample_click failed_landslide "''timeout''"]
  by (simp add: failed_mmi_def failed_landslide_def mmi_val_def)

end
